theory Spec2Isabelle
  imports Main "HOL-Library.Sublist" "HOL-Library.AList"
begin

section \<open>The Go library functions the interpreter calls\<close>

text \<open>
  A Go \<^verbatim>\<open>string\<close> is a sequence of bytes, here a \<^typ>\<open>string\<close> (a list of
  8-bit characters). The functions below are the parts of the packages \<^verbatim>\<open>strings\<close>,
  \<^verbatim>\<open>strconv\<close> and \<^verbatim>\<open>fmt\<close> that the interpreter uses, with the results the
  Go library gives on every byte sequence.
\<close>

subsection \<open>Searching and cutting\<close>

text \<open>\<^verbatim>\<open>strings.Index(s, sub)\<close>: the position of the first occurrence, \<open>None\<close> for -1.\<close>

fun strings_Index :: "string \<Rightarrow> string \<Rightarrow> nat option" where
  "strings_Index [] sub = (if sub = [] then Some 0 else None)"
| "strings_Index (c # cs) sub =
     (if prefix sub (c # cs) then Some 0 else map_option Suc (strings_Index cs sub))"

definition strings_Contains :: "string \<Rightarrow> string \<Rightarrow> bool" where
  "strings_Contains s sub = (strings_Index s sub \<noteq> None)"

definition strings_HasSuffix :: "string \<Rightarrow> string \<Rightarrow> bool" where
  "strings_HasSuffix s suf = suffix suf s"

definition strings_TrimSuffix :: "string \<Rightarrow> string \<Rightarrow> string" where
  "strings_TrimSuffix s suf =
     (if strings_HasSuffix s suf then take (length s - length suf) s else s)"

text \<open>
  \<^verbatim>\<open>strings.Split(s, sep)\<close> for a separator of one byte, the only form the source
  uses (\<^verbatim>\<open>" "\<close>, \<^verbatim>\<open>"|"\<close> and the path-list separator). The result is never empty.
\<close>

fun strings_Split :: "string \<Rightarrow> char \<Rightarrow> string list" where
  "strings_Split [] sep = [[]]"
| "strings_Split (c # cs) sep =
     (if c = sep then [] # strings_Split cs sep
      else (case strings_Split cs sep of
              [] \<Rightarrow> [[c]]
            | x # xs \<Rightarrow> (c # x) # xs))"

text \<open>\<^verbatim>\<open>strings.SplitN(s, sep, 2)\<close> for a separator of one byte: cut at the first one.\<close>

definition strings_SplitN2 :: "string \<Rightarrow> char \<Rightarrow> string list" where
  "strings_SplitN2 s sep =
     (case strings_Index s [sep] of
        None \<Rightarrow> [s]
      | Some i \<Rightarrow> [take i s, drop (i + 1) s])"

fun strings_Join :: "string list \<Rightarrow> string \<Rightarrow> string" where
  "strings_Join [] sep = []"
| "strings_Join [x] sep = x"
| "strings_Join (x # y # ys) sep = x @ sep @ strings_Join (y # ys) sep"

text \<open>\<^verbatim>\<open>strings.Trim(s, cutset)\<close> for a cutset of ASCII bytes (the source passes \<^verbatim>\<open>"'\""\<close>).\<close>

definition strings_Trim :: "string \<Rightarrow> string \<Rightarrow> string" where
  "strings_Trim s cutset =
     rev (dropWhile (\<lambda>c. c \<in> set cutset) (rev (dropWhile (\<lambda>c. c \<in> set cutset) s)))"

subsection \<open>White space\<close>

text \<open>
  \<^verbatim>\<open>strings.TrimSpace\<close> and \<^verbatim>\<open>strings.Fields\<close> use \<^verbatim>\<open>unicode.IsSpace\<close> on the runes
  that the UTF-8 decoder finds: six ASCII bytes, and the encodings of U+0085, U+00A0, U+1680,
  U+2000 to U+200A, U+2028, U+2029, U+202F, U+205F and U+3000. A byte that starts no valid
  encoding decodes to U+FFFD with width one, which is not white space, and no continuation
  byte starts a white-space encoding, so scanning bytes for these encodings finds exactly the
  white-space runes of the decoder.
\<close>

definition asciiSpace :: "char \<Rightarrow> bool" where
  "asciiSpace c = (c \<in> set [CHR 0x09, CHR 0x0A, CHR 0x0B, CHR 0x0C, CHR 0x0D, CHR 0x20])"

definition wideSpaces :: "string list" where
  "wideSpaces =
     [[CHR 0xC2, CHR 0x85], [CHR 0xC2, CHR 0xA0], [CHR 0xE1, CHR 0x9A, CHR 0x80],
      [CHR 0xE2, CHR 0x80, CHR 0x80], [CHR 0xE2, CHR 0x80, CHR 0x81],
      [CHR 0xE2, CHR 0x80, CHR 0x82], [CHR 0xE2, CHR 0x80, CHR 0x83],
      [CHR 0xE2, CHR 0x80, CHR 0x84], [CHR 0xE2, CHR 0x80, CHR 0x85],
      [CHR 0xE2, CHR 0x80, CHR 0x86], [CHR 0xE2, CHR 0x80, CHR 0x87],
      [CHR 0xE2, CHR 0x80, CHR 0x88], [CHR 0xE2, CHR 0x80, CHR 0x89],
      [CHR 0xE2, CHR 0x80, CHR 0x8A], [CHR 0xE2, CHR 0x80, CHR 0xA8],
      [CHR 0xE2, CHR 0x80, CHR 0xA9], [CHR 0xE2, CHR 0x80, CHR 0xAF],
      [CHR 0xE2, CHR 0x81, CHR 0x9F], [CHR 0xE3, CHR 0x80, CHR 0x80]]"

text \<open>The width in bytes of the white-space rune at the head of the string, 0 if there is none.\<close>

definition spaceWidth :: "string \<Rightarrow> nat" where
  "spaceWidth s =
     (case s of
        [] \<Rightarrow> 0
      | c # cs \<Rightarrow>
          if asciiSpace c then 1
          else (case find (\<lambda>p. prefix p s) wideSpaces of
                  None \<Rightarrow> 0
                | Some p \<Rightarrow> length p))"

text \<open>The same for the rune at the end of the string (\<^verbatim>\<open>utf8.DecodeLastRuneInString\<close>).\<close>

definition spaceWidthLast :: "string \<Rightarrow> nat" where
  "spaceWidthLast s =
     (if s = [] then 0
      else if asciiSpace (last s) then 1
      else (case find (\<lambda>p. suffix p s) wideSpaces of
              None \<Rightarrow> 0
            | Some p \<Rightarrow> length p))"

function TrimLeftSpace :: "string \<Rightarrow> string" where
  "TrimLeftSpace s = (if spaceWidth s = 0 then s else TrimLeftSpace (drop (spaceWidth s) s))"
  by pat_completeness auto
termination
proof (relation "measure length")
  fix s :: string
  assume "spaceWidth s \<noteq> 0"
  then have "s \<noteq> []" by (auto simp: spaceWidth_def)
  with \<open>spaceWidth s \<noteq> 0\<close> show "(drop (spaceWidth s) s, s) \<in> measure length" by simp
qed simp

function TrimRightSpace :: "string \<Rightarrow> string" where
  "TrimRightSpace s =
     (if spaceWidthLast s = 0 then s
      else TrimRightSpace (take (length s - spaceWidthLast s) s))"
  by pat_completeness auto
termination
proof (relation "measure length")
  fix s :: string
  assume "spaceWidthLast s \<noteq> 0"
  then have "s \<noteq> []" by (auto simp: spaceWidthLast_def)
  with \<open>spaceWidthLast s \<noteq> 0\<close>
  show "(take (length s - spaceWidthLast s) s, s) \<in> measure length" by simp
qed simp

declare TrimLeftSpace.simps [simp del] TrimRightSpace.simps [simp del]

definition strings_TrimSpace :: "string \<Rightarrow> string" where
  "strings_TrimSpace s = TrimRightSpace (TrimLeftSpace s)"

text \<open>
  \<^verbatim>\<open>strings.Fields(s)\<close>: the maximal runs of bytes between white-space runes; \<open>cur\<close> is
  the field being read, reversed.
\<close>

definition endField :: "string \<Rightarrow> string list" where
  "endField cur = (if cur = [] then [] else [rev cur])"

function fieldsFrom :: "string \<Rightarrow> string \<Rightarrow> string list" where
  "fieldsFrom cur [] = endField cur"
| "fieldsFrom cur (c # cs) =
     (if spaceWidth (c # cs) = 0 then fieldsFrom (c # cur) cs
      else endField cur @ fieldsFrom [] (drop (spaceWidth (c # cs)) (c # cs)))"
  by pat_completeness auto
termination
proof (relation "measure (\<lambda>(cur, s). length s)")
  fix cur :: string and c :: char and cs :: string
  assume "spaceWidth (c # cs) \<noteq> 0"
  then show "(([], drop (spaceWidth (c # cs)) (c # cs)), (cur, c # cs))
               \<in> measure (\<lambda>(cur, s). length s)"
    by simp
qed simp_all

declare fieldsFrom.simps [simp del]

definition strings_Fields :: "string \<Rightarrow> string list" where
  "strings_Fields s = fieldsFrom [] s"

subsection \<open>Numbers\<close>

text \<open>
  \<^verbatim>\<open>strconv.Atoi\<close> on a 64-bit platform: an optional sign, then at least one decimal
  digit and nothing else; a value outside the range of \<^verbatim>\<open>int\<close> is an error. \<open>None\<close>
  stands for a non-nil \<^verbatim>\<open>err\<close>.
\<close>

definition isDigit :: "char \<Rightarrow> bool" where
  "isDigit c = (48 \<le> (of_char c :: nat) \<and> (of_char c :: nat) \<le> 57)"

definition digitsValue :: "string \<Rightarrow> int" where
  "digitsValue ds = foldl (\<lambda>n ch. n * 10 + (int (of_char ch) - 48)) 0 ds"

definition parseDigits :: "string \<Rightarrow> int option" where
  "parseDigits ds = (if ds \<noteq> [] \<and> list_all isDigit ds then Some (digitsValue ds) else None)"

definition inIntRange :: "int \<Rightarrow> bool" where
  "inIntRange n = (- (2 ^ 63) \<le> n \<and> n \<le> 2 ^ 63 - 1)"

definition strconv_Atoi :: "string \<Rightarrow> int option" where
  "strconv_Atoi s =
     (case (case s of
              [] \<Rightarrow> None
            | c # cs \<Rightarrow>
                if c = CHR ''-'' then map_option uminus (parseDigits cs)
                else if c = CHR ''+'' then parseDigits cs
                else parseDigits s) of
        None \<Rightarrow> None
      | Some n \<Rightarrow> if inIntRange n then Some n else None)"

text \<open>The verb \<^verbatim>\<open>%d\<close> of \<^verbatim>\<open>fmt\<close>.\<close>

definition digitChar :: "nat \<Rightarrow> char" where
  "digitChar d = ''0123456789'' ! d"

function showNat :: "nat \<Rightarrow> string" where
  "showNat n = (if n < 10 then [digitChar n] else showNat (n div 10) @ [digitChar (n mod 10)])"
  by pat_completeness auto
termination
  by (relation "measure id") auto

declare showNat.simps [simp del]

definition showInt :: "int \<Rightarrow> string" where
  "showInt i = (if i < 0 then CHR ''-'' # showNat (nat (- i)) else showNat (nat i))"


section \<open>The interpreter\<close>

subsection \<open>State\<close>

text \<open>
  The package-level variables of the interpreter form one record. \<open>aliases\<close> and
  \<open>envVars\<close> are Go maps that the source also ranges over; Go leaves that order open, the
  model keeps them as association lists and ranges in list order. \<open>written\<close> is the text
  that reached the \<^verbatim>\<open>writer\<close> of \<^verbatim>\<open>handleCommand\<close>, \<open>events\<close> the processes and
  files it touched, \<open>timers\<close> the pending callbacks of \<^verbatim>\<open>time.AfterFunc\<close> with their
  deadlines, \<open>clock\<close> the time in nanoseconds. \<open>status\<close> says whether the program still
  runs: \<^verbatim>\<open>os.Exit(0)\<close> and a run-time panic end it.
\<close>

record job =
  pid :: nat
  argv :: "string list"

datatype status = Running | Exited | IndexOutOfRange

datatype source = NoInput | FromFile string

datatype sink = Discard | ToWriter | ToFile string

datatype event =
    CreateFile string
  | OpenFile string
  | CloseFile string
  | RunProcess "string list" source sink
  | StartProcess "string list"
  | RunPipeline "string list list"
  | WaitProcess nat
  | SignalContinue nat
  | OsCall string "string list"
  | Setenv string string
  | Unsetenv string
  | SaveFiles

record shell =
  history :: "string list"
  aliases :: "(string \<times> string) list"
  envVars :: "(string \<times> string) list"
  jobs :: "job list"
  commandCache :: "string \<rightharpoonup> string"
  timers :: "(nat \<times> string) list"
  clock :: nat
  shellBgOpacity :: int
  shellTextSize :: int
  shellTextColor :: string
  shellTextBold :: bool
  shellPromptStyle :: string
  input :: string
  written :: string
  events :: "event list"
  status :: status

text \<open>
  What the operating system answers is a parameter of the model, fixed while one line is
  handled. \<open>sh c\<close> is the result of \<^verbatim>\<open>exec.Command("/bin/sh", "-c", c).Output()\<close>: the
  captured output, or \<open>None\<close> when \<^verbatim>\<open>err\<close> is not nil. \<open>expandEnv\<close> is
  \<^verbatim>\<open>os.ExpandEnv\<close>, \<open>pathEnv\<close> the value of \<^verbatim>\<open>PATH\<close>, \<open>pathListSeparator\<close> the constant
  \<^verbatim>\<open>os.PathListSeparator\<close>, \<open>joinPath\<close> is \<^verbatim>\<open>filepath.Join\<close>, and \<open>statOk p\<close> says that
  \<^verbatim>\<open>os.Stat(p)\<close> returns no error. \<open>runCmd\<close> is \<^verbatim>\<open>cmd.Run()\<close>: the text the process sends to the
  writer and the error, if any, with the class that \<^verbatim>\<open>executeExternalCommand\<close> tests for.
  \<open>startCmd\<close> is \<^verbatim>\<open>cmd.Start()\<close>: an error text or the process id. \<open>createFile\<close> and
  \<open>openFile\<close> give the error text of \<^verbatim>\<open>os.Create\<close> and \<^verbatim>\<open>os.Open\<close>, \<open>None\<close> on
  success. \<open>osBuiltin\<close> is the text that the builtins working on the file system and the
  process table write.
\<close>

datatype error_class = ExitError | Permission | NotExist | OtherError

record world =
  sh :: "string \<Rightarrow> string option"
  expandEnv :: "string \<Rightarrow> string"
  pathEnv :: string
  pathListSeparator :: char
  joinPath :: "string \<Rightarrow> string \<Rightarrow> string"
  statOk :: "string \<Rightarrow> bool"
  runCmd :: "string list \<Rightarrow> source \<Rightarrow> sink \<Rightarrow> string \<times> (error_class \<times> string) option"
  startCmd :: "string list \<Rightarrow> string + nat"
  createFile :: "string \<Rightarrow> string option"
  openFile :: "string \<Rightarrow> string option"
  osBuiltin :: "string \<Rightarrow> string list \<Rightarrow> string"

definition emit :: "shell \<Rightarrow> string \<Rightarrow> shell" where
  "emit st text = st\<lparr>written := written st @ text\<rparr>"

definition logEvent :: "shell \<Rightarrow> event \<Rightarrow> shell" where
  "logEvent st e = st\<lparr>events := events st @ [e]\<rparr>"

definition builtins :: "string list" where
  "builtins =
     [''echo'', ''exit'', ''type'', ''pwd'', ''cd'', ''whoami'', ''ls'', ''cat'', ''touch'',
      ''rm'', ''mkdir'', ''rmdir'', ''history'', ''clear'', ''alias'', ''unalias'', ''export'',
      ''unset'', ''jobs'', ''fg'', ''bg'', ''kill'', ''shell'']"

definition isBuiltin :: "string \<Rightarrow> bool" where
  "isBuiltin cmd = (cmd \<in> set builtins)"

text \<open>The values that \<^verbatim>\<open>init\<close> sets, before the alias and environment files are read.\<close>

definition initShell :: shell where
  "initShell =
     \<lparr>history = [], aliases = [], envVars = [], jobs = [], commandCache = Map.empty,
      timers = [], clock = 0, shellBgOpacity = 100, shellTextSize = 12,
      shellTextColor = ''white'', shellTextBold = False, shellPromptStyle = ''default'',
      input = [], written = [], events = [], status = Running\<rparr>"

subsection \<open>The path cache\<close>

text \<open>
  \<^verbatim>\<open>cacheCommandPath\<close> stores the path and starts a timer that deletes the entry of that
  name \<open>cacheExpiration\<close> later. Time passes between two commands: \<open>elapse d\<close> moves the
  clock by \<open>d\<close> and runs the callback of every timer whose deadline is reached.
\<close>

definition cacheExpiration :: nat where
  "cacheExpiration = 5 * 60 * 1000000000"

definition cacheCommandPath :: "shell \<Rightarrow> string \<Rightarrow> string \<Rightarrow> shell" where
  "cacheCommandPath st cmd path =
     st\<lparr>commandCache := (commandCache st)(cmd \<mapsto> path),
        timers := timers st @ [(clock st + cacheExpiration, cmd)]\<rparr>"

definition getCachedCommandPath :: "shell \<Rightarrow> string \<Rightarrow> string option" where
  "getCachedCommandPath st cmd = commandCache st cmd"

definition due :: "nat \<Rightarrow> nat \<times> string \<Rightarrow> bool" where
  "due t timer = (fst timer \<le> t)"

definition fire :: "nat \<times> string \<Rightarrow> (string \<rightharpoonup> string) \<Rightarrow> (string \<rightharpoonup> string)" where
  "fire timer cache = cache(snd timer := None)"

definition elapse :: "nat \<Rightarrow> shell \<Rightarrow> shell" where
  "elapse d st =
     (let t = clock st + d
      in st\<lparr>clock := t,
            commandCache := fold fire (filter (due t) (timers st)) (commandCache st),
            timers := filter (\<lambda>timer. \<not> due t timer) (timers st)\<rparr>)"

text \<open>The scan of the search path: the first directory where \<^verbatim>\<open>os.Stat\<close> succeeds.\<close>

fun searchPath :: "world \<Rightarrow> string \<Rightarrow> string list \<Rightarrow> string option" where
  "searchPath w cmd [] = None"
| "searchPath w cmd (path # paths) =
     (if statOk w (joinPath w path cmd) then Some (joinPath w path cmd)
      else searchPath w cmd paths)"

definition scanPath :: "world \<Rightarrow> string \<Rightarrow> string option" where
  "scanPath w cmd = searchPath w cmd (strings_Split (pathEnv w) (pathListSeparator w))"

subsection \<open>Command substitution\<close>

text \<open>
  The loop of \<^verbatim>\<open>substituteCommand\<close>. It has no bound, so the function is partial:
  \<open>None\<close> means that the loop never ends. The slice \<^verbatim>\<open>cmdLine[start+2 : end]\<close> is in
  range, because the text from \<open>start\<close> begins with the two bytes of the marker.
\<close>

partial_function (option) substituteCommand ::
  "(string \<Rightarrow> string option) \<Rightarrow> string \<Rightarrow> string option" where
  "substituteCommand shell_out cmdLine =
     (case strings_Index cmdLine ''$('' of
        None \<Rightarrow> Some cmdLine
      | Some start \<Rightarrow>
          (case strings_Index (drop start cmdLine) '')'' of
             None \<Rightarrow> Some cmdLine
           | Some e \<Rightarrow>
               (let end = e + start;
                    subCmd = take (end - (start + 2)) (drop (start + 2) cmdLine)
                in case shell_out subCmd of
                     Some output \<Rightarrow>
                       substituteCommand shell_out
                         (take start cmdLine @ strings_TrimSpace output @ drop (end + 1) cmdLine)
                   | None \<Rightarrow> substituteCommand shell_out cmdLine)))"


subsection \<open>Process launchers\<close>

text \<open>
  \<^verbatim>\<open>executeExternalCommand\<close>: the process runs with standard output and error on the
  writer; an error is reported by its class.
\<close>

definition executeExternalCommand :: "world \<Rightarrow> shell \<Rightarrow> string \<Rightarrow> string list \<Rightarrow> shell" where
  "executeExternalCommand w st path args =
     (let (text, err) = runCmd w (path # args) NoInput ToWriter;
          st1 = emit (logEvent st (RunProcess (path # args) NoInput ToWriter)) text
      in case err of
           None \<Rightarrow> st1
         | Some (ExitError, msg) \<Rightarrow> emit st1 (path @ '': '' @ msg @ ''\<newline>'')
         | Some (Permission, msg) \<Rightarrow> emit st1 (path @ '': permission denied\<newline>'')
         | Some (NotExist, msg) \<Rightarrow> emit st1 (path @ '': command not found\<newline>'')
         | Some (OtherError, msg) \<Rightarrow> emit st1 (path @ '': '' @ msg @ ''\<newline>''))"

text \<open>
  \<^verbatim>\<open>executePipedCommands\<close>. The first loop builds one command per stage and indexes
  \<^verbatim>\<open>cmdArgs[0]\<close>; \<open>None\<close> is the panic of that index on a stage without tokens. The
  stages are then connected, started and waited for; their output goes to the standard
  output of the interpreter, not to the writer.
\<close>

fun buildStages :: "string list \<Rightarrow> string list list option" where
  "buildStages [] = Some []"
| "buildStages (cmdStr # rest) =
     (case strings_Fields (strings_TrimSpace cmdStr) of
        [] \<Rightarrow> None
      | name # cmdArgs \<Rightarrow> map_option ((#) (name # cmdArgs)) (buildStages rest))"

definition executePipedCommands :: "shell \<Rightarrow> string \<Rightarrow> shell" where
  "executePipedCommands st cmdLine =
     (case buildStages (strings_Split cmdLine (CHR ''|'')) of
        None \<Rightarrow> st\<lparr>status := IndexOutOfRange\<rparr>
      | Some cmds \<Rightarrow> logEvent st (RunPipeline cmds))"

text \<open>
  \<^verbatim>\<open>executeRedirectedCommand\<close>. \<^verbatim>\<open>cmdArgs[0]\<close> panics when no token stands before the
  operator. A file is created or opened only for a target that is not empty, and the
  deferred \<^verbatim>\<open>Close\<close> runs when the function returns. Standard output is connected
  only by an output redirection, standard error always to the writer. \<open>runAndReport\<close> is
  the end of the function, from \<^verbatim>\<open>cmd.Stderr = writer\<close> on.
\<close>

definition runAndReport ::
  "world \<Rightarrow> shell \<Rightarrow> string \<Rightarrow> string list \<Rightarrow> source \<Rightarrow> sink \<Rightarrow> shell" where
  "runAndReport w st name rest inp out =
     (let (text, err) = runCmd w (name # rest) inp out;
          st1 = emit (logEvent st (RunProcess (name # rest) inp out)) text
      in case err of
           None \<Rightarrow> st1
         | Some (cls, msg) \<Rightarrow> emit st1 (name @ '': '' @ msg @ ''\<newline>''))"

definition executeRedirectedCommand :: "world \<Rightarrow> shell \<Rightarrow> string \<Rightarrow> shell" where
  "executeRedirectedCommand w st cmdLine =
     (let redirectOutIndex = strings_Index cmdLine ''>'';
          redirectInIndex = strings_Index cmdLine ''<'';
          (cmdArgs, redirectOut, redirectIn) =
            (case redirectOutIndex of
               Some i \<Rightarrow>
                 (strings_Fields (strings_TrimSpace (take i cmdLine)),
                  strings_TrimSpace (drop (i + 1) cmdLine), [])
             | None \<Rightarrow>
                 (case redirectInIndex of
                    Some j \<Rightarrow>
                      (strings_Fields (strings_TrimSpace (take j cmdLine)), [],
                       strings_TrimSpace (drop (j + 1) cmdLine))
                  | None \<Rightarrow> (strings_Fields cmdLine, [], [])))
      in case cmdArgs of
           [] \<Rightarrow> st\<lparr>status := IndexOutOfRange\<rparr>
         | name # rest \<Rightarrow>
             (case (if redirectOut \<noteq> [] then createFile w redirectOut else None) of
                Some msg \<Rightarrow>
                  emit st (''Error creating file '' @ redirectOut @ '': '' @ msg @ ''\<newline>'')
              | None \<Rightarrow>
                (let st1 = (if redirectOut \<noteq> [] then logEvent st (CreateFile redirectOut) else st);
                     out = (if redirectOut \<noteq> [] then ToFile redirectOut else Discard)
                 in case (if redirectIn \<noteq> [] then openFile w redirectIn else None) of
                      Some msg \<Rightarrow>
                        (let st2 = emit st1 (''Error opening file '' @ redirectIn @ '': '' @ msg
                                             @ ''\<newline>'')
                         in if redirectOut \<noteq> [] then logEvent st2 (CloseFile redirectOut) else st2)
                    | None \<Rightarrow>
                      (let st2 = (if redirectIn \<noteq> [] then logEvent st1 (OpenFile redirectIn) else st1);
                           inp = (if redirectIn \<noteq> [] then FromFile redirectIn else NoInput);
                           st3 = runAndReport w st2 name rest inp out;
                           st4 = (if redirectIn \<noteq> [] then logEvent st3 (CloseFile redirectIn) else st3)
                       in if redirectOut \<noteq> [] then logEvent st4 (CloseFile redirectOut) else st4))))"

text \<open>
  The background branch of \<^verbatim>\<open>handleCommand\<close>: the marker is cut off, the rest is split
  at white space and started without waiting; \<^verbatim>\<open>args[0]\<close> panics when nothing is left.
\<close>

definition startBackground :: "world \<Rightarrow> shell \<Rightarrow> string \<Rightarrow> shell" where
  "startBackground w st cmdLine =
     (case strings_Fields (strings_TrimSuffix cmdLine ''&'') of
        [] \<Rightarrow> st\<lparr>status := IndexOutOfRange\<rparr>
      | name # rest \<Rightarrow>
          (case startCmd w (name # rest) of
             Inr p \<Rightarrow>
               emit (logEvent (st\<lparr>jobs := jobs st @ [\<lparr>pid = p, argv = name # rest\<rparr>]\<rparr>)
                       (StartProcess (name # rest)))
                 (''['' @ showNat (length (jobs st) + 1) @ ''] '' @ showNat p @ ''\<newline>'')
           | Inl msg \<Rightarrow> emit st (name @ '': '' @ msg @ ''\<newline>'')))"

text \<open>
  The last branch of \<^verbatim>\<open>handleCommand\<close>: the cache is asked first; on a miss the search
  path is scanned and a path that is found is cached before the command runs.
\<close>

definition runExternal :: "world \<Rightarrow> shell \<Rightarrow> string \<Rightarrow> string list \<Rightarrow> shell" where
  "runExternal w st cmd args =
     (case getCachedCommandPath st cmd of
        Some path \<Rightarrow> executeExternalCommand w st path args
      | None \<Rightarrow>
          (case scanPath w cmd of
             Some fullPath \<Rightarrow>
               executeExternalCommand w (cacheCommandPath st cmd fullPath) fullPath args
           | None \<Rightarrow> emit st (cmd @ '': command not found\<newline>'')))"

subsection \<open>Builtins\<close>

text \<open>
  \<^verbatim>\<open>sendSignalContinue\<close> as the file of \<^verbatim>\<open>handleCommand\<close> declares it and as
  \<^verbatim>\<open>executeBuiltinCommand\<close> calls it: no parameter, and the result is always this error.
\<close>

definition sendSignalContinue :: "string option" where
  "sendSignalContinue = Some ''SIGCONT not supported on Windows''"

text \<open>
  \<^verbatim>\<open>sendSignalContinue(job)\<close> of \<^verbatim>\<open>signal_unix.go\<close>: the signal goes to the process
  of the job. \<open>signalError\<close> is the error that \<^verbatim>\<open>Process.Signal\<close> returns, if any. No call
  in the source reaches this function.
\<close>

definition sendSignalContinue_unix :: "(nat \<Rightarrow> string option) \<Rightarrow> job \<Rightarrow> shell \<Rightarrow> shell \<times> string option" where
  "sendSignalContinue_unix signalError j st = (logEvent st (SignalContinue (pid j)), signalError (pid j))"

definition showBool :: "bool \<Rightarrow> string" where
  "showBool b = (if b then ''true'' else ''false'')"

definition handleShellCustomization :: "shell \<Rightarrow> string list \<Rightarrow> shell" where
  "handleShellCustomization st args =
     (case args of
        option # v # vs \<Rightarrow>
          (let val = strings_Join (v # vs) '' ''
           in if option = ''bg-opacity'' then
                (case strconv_Atoi val of
                   Some opacity \<Rightarrow>
                     if opacity \<ge> 0 \<and> opacity \<le> 100
                     then emit (st\<lparr>shellBgOpacity := opacity\<rparr>)
                            (''Background opacity set to '' @ showInt opacity @ ''%\<newline>'')
                     else emit st ''Invalid opacity value. Please enter a value between 0 and 100.\<newline>''
                 | None \<Rightarrow>
                     emit st ''Invalid opacity value. Please enter a value between 0 and 100.\<newline>'')
              else if option = ''text-size'' then
                (case strconv_Atoi val of
                   Some textSize \<Rightarrow>
                     if textSize > 0
                     then emit (st\<lparr>shellTextSize := textSize\<rparr>)
                            (''Text size set to '' @ showInt textSize @ ''\<newline>'')
                     else emit st ''Invalid text size. Please enter a positive integer.\<newline>''
                 | None \<Rightarrow> emit st ''Invalid text size. Please enter a positive integer.\<newline>'')
              else if option = ''text-color'' then
                emit (st\<lparr>shellTextColor := val\<rparr>) (''Text color set to '' @ val @ ''\<newline>'')
              else if option = ''text-bold'' then
                (if val = ''true'' then emit (st\<lparr>shellTextBold := True\<rparr>) ''Text bold set to true\<newline>''
                 else if val = ''false''
                 then emit (st\<lparr>shellTextBold := False\<rparr>) ''Text bold set to false\<newline>''
                 else emit st ''Invalid value for text-bold. Use true or false.\<newline>'')
              else if option = ''prompt-style'' then
                emit (st\<lparr>shellPromptStyle := val\<rparr>) (''Prompt style set to '' @ val @ ''\<newline>'')
              else emit st ''Unknown customization option.\<newline>'')
      | _ \<Rightarrow> emit st ''Usage: shell [option] [value]\<newline>'')"

definition printShellCustomization :: "shell \<Rightarrow> shell" where
  "printShellCustomization st =
     emit st
       (''Shell Customization Options:\<newline>''
        @ ''bg-opacity: '' @ showInt (shellBgOpacity st) @ ''%\<newline>''
        @ ''text-size: '' @ showInt (shellTextSize st) @ ''\<newline>''
        @ ''text-color: '' @ shellTextColor st @ ''\<newline>''
        @ ''text-bold: '' @ showBool (shellTextBold st) @ ''\<newline>''
        @ ''prompt-style: '' @ shellPromptStyle st @ ''\<newline>'')"

text \<open>The listings of \<^verbatim>\<open>history\<close> and \<^verbatim>\<open>jobs\<close>: one line per entry, numbered from \<open>i\<close>.\<close>

fun historyLines :: "nat \<Rightarrow> string list \<Rightarrow> string" where
  "historyLines i [] = []"
| "historyLines i (cmd # rest) = showNat i @ '' '' @ cmd @ ''\<newline>'' @ historyLines (i + 1) rest"

fun jobLines :: "nat \<Rightarrow> job list \<Rightarrow> string" where
  "jobLines i [] = []"
| "jobLines i (j # rest) =
     ''['' @ showNat i @ '']+  '' @ showNat (pid j) @ '' Running    ''
     @ strings_Join (argv j) '' '' @ ''\<newline>'' @ jobLines (i + 1) rest"

fun aliasLines :: "(string \<times> string) list \<Rightarrow> string" where
  "aliasLines [] = []"
| "aliasLines ((k, v) # rest) =
     ''alias '' @ k @ [CHR ''='', CHR 0x27] @ v @ [CHR 0x27, CHR 0x0A] @ aliasLines rest"

fun setAliases :: "shell \<Rightarrow> string list \<Rightarrow> shell" where
  "setAliases st [] = st"
| "setAliases st (a # rest) =
     (case strings_SplitN2 a (CHR ''='') of
        [name, val] \<Rightarrow>
          setAliases
            (st\<lparr>aliases := AList.update name (strings_Trim val [CHR 0x27, CHR 0x22]) (aliases st)\<rparr>)
            rest
      | _ \<Rightarrow> setAliases st rest)"

fun removeAliases :: "shell \<Rightarrow> string list \<Rightarrow> shell" where
  "removeAliases st [] = st"
| "removeAliases st (a # rest) = removeAliases (st\<lparr>aliases := AList.delete a (aliases st)\<rparr>) rest"

fun exportVars :: "shell \<Rightarrow> string list \<Rightarrow> shell" where
  "exportVars st [] = st"
| "exportVars st (envVar # rest) =
     (case strings_SplitN2 envVar (CHR ''='') of
        [name, val] \<Rightarrow>
          exportVars
            ((logEvent st (Setenv name val))\<lparr>envVars := AList.update name val (envVars st)\<rparr>)
            rest
      | _ \<Rightarrow> exportVars st rest)"

fun unsetVars :: "shell \<Rightarrow> string list \<Rightarrow> shell" where
  "unsetVars st [] = st"
| "unsetVars st (envVar # rest) =
     unsetVars ((logEvent st (Unsetenv envVar))\<lparr>envVars := AList.delete envVar (envVars st)\<rparr>) rest"

text \<open>
  The builtins that only call the operating system (\<^verbatim>\<open>pwd\<close>, \<^verbatim>\<open>cd\<close>, \<^verbatim>\<open>whoami\<close>,
  \<^verbatim>\<open>ls\<close>, \<^verbatim>\<open>cat\<close>, \<^verbatim>\<open>touch\<close>, \<^verbatim>\<open>rm\<close>, \<^verbatim>\<open>mkdir\<close>, \<^verbatim>\<open>rmdir\<close>, \<^verbatim>\<open>clear\<close>,
  \<^verbatim>\<open>kill\<close>) change no variable of the interpreter: the call is recorded and the text the
  builtin writes about its result is the answer of the world.
\<close>

definition osCall :: "world \<Rightarrow> shell \<Rightarrow> string \<Rightarrow> string list \<Rightarrow> shell" where
  "osCall w st cmd args = emit (logEvent st (OsCall cmd args)) (osBuiltin w cmd args)"

definition typeBuiltin :: "world \<Rightarrow> shell \<Rightarrow> string list \<Rightarrow> shell" where
  "typeBuiltin w st args =
     (case args of
        [] \<Rightarrow> st
      | arg # rest \<Rightarrow>
          if isBuiltin arg then emit st (arg @ '' is a shell builtin\<newline>'')
          else (case getCachedCommandPath st arg of
                  Some path \<Rightarrow> emit st (arg @ '' is '' @ path @ ''\<newline>'')
                | None \<Rightarrow>
                    (case scanPath w arg of
                       Some fullPath \<Rightarrow>
                         cacheCommandPath (emit st (arg @ '' is '' @ fullPath @ ''\<newline>''))
                           arg fullPath
                     | None \<Rightarrow> emit st (arg @ '' not found\<newline>''))))"

definition validJob :: "shell \<Rightarrow> string \<Rightarrow> nat option" where
  "validJob st arg =
     (case strconv_Atoi arg of
        Some jobNumber \<Rightarrow>
          if jobNumber > 0 \<and> jobNumber \<le> int (length (jobs st)) then Some (nat jobNumber - 1)
          else None
      | None \<Rightarrow> None)"

definition executeBuiltinCommand :: "world \<Rightarrow> shell \<Rightarrow> string \<Rightarrow> string list \<Rightarrow> shell" where
  "executeBuiltinCommand w st cmd args =
     (if cmd = ''echo'' then emit st (strings_Join args '' '' @ ''\<newline>'')
      else if cmd = ''exit'' then (logEvent st SaveFiles)\<lparr>status := Exited\<rparr>
      else if cmd = ''type'' then typeBuiltin w st args
      else if cmd = ''pwd'' then osCall w st cmd args
      else if cmd = ''cd'' then osCall w st cmd args
      else if cmd = ''whoami'' then osCall w st cmd args
      else if cmd = ''ls'' then osCall w st cmd args
      else if cmd = ''cat'' then
        (if args \<noteq> [] then osCall w st cmd args else emit st ''cat: missing file operand\<newline>'')
      else if cmd = ''touch'' then
        (if args \<noteq> [] then osCall w st cmd args else emit st ''touch: missing file operand\<newline>'')
      else if cmd = ''rm'' then
        (if args \<noteq> [] then osCall w st cmd args else emit st ''rm: missing file operand\<newline>'')
      else if cmd = ''mkdir'' then
        (if args \<noteq> [] then osCall w st cmd args
         else emit st ''mkdir: missing directory operand\<newline>'')
      else if cmd = ''rmdir'' then
        (if args \<noteq> [] then osCall w st cmd args
         else emit st ''rmdir: missing directory operand\<newline>'')
      else if cmd = ''history'' then emit st (historyLines 1 (history st))
      else if cmd = ''clear'' then osCall w st cmd args
      else if cmd = ''alias'' then
        (if args = [] then emit st (aliasLines (aliases st)) else setAliases st args)
      else if cmd = ''help'' then
        emit st (''Available commands:\<newline>''
                 @ concat (map (\<lambda>c. ''  '' @ c @ ''\<newline>'') builtins)
                 @ ''Use `man <command>` for more information on a command.\<newline>'')
      else if cmd = ''unalias'' then removeAliases st args
      else if cmd = ''export'' then exportVars st args
      else if cmd = ''unset'' then unsetVars st args
      else if cmd = ''jobs'' then emit st (jobLines 1 (jobs st))
      else if cmd = ''fg'' then
        (case args of
           [] \<Rightarrow> st
         | arg # rest \<Rightarrow>
             (case validJob st arg of
                Some i \<Rightarrow> logEvent st (WaitProcess (pid (jobs st ! i)))
              | None \<Rightarrow> emit st (''fg: '' @ arg @ '': no such job\<newline>'')))
      else if cmd = ''bg'' then
        (case args of
           [] \<Rightarrow> st
         | arg # rest \<Rightarrow>
             (case validJob st arg of
                Some i \<Rightarrow>
                  (case sendSignalContinue of
                     Some err \<Rightarrow> emit st (''Failed to send continue signal: '' @ err @ ''\<newline>'')
                   | None \<Rightarrow> st)
              | None \<Rightarrow> emit st (''bg: '' @ arg @ '': no such job\<newline>'')))
      else if cmd = ''kill'' then
        (if args \<noteq> [] then osCall w st cmd args else emit st ''kill: missing PID operand\<newline>'')
      else if cmd = ''shell'' then
        (if args \<noteq> [] then handleShellCustomization st args else printShellCustomization st)
      else st)"

subsection \<open>Dispatch\<close>

text \<open>
  \<^verbatim>\<open>handleCommand\<close> from the test for a pipe to its end: the line is the one left by
  substitution and expansion. The alias table is read once, for the first of the pieces
  between single spaces; the background and redirection branches read the line itself.
\<close>

definition dispatch :: "world \<Rightarrow> shell \<Rightarrow> string \<Rightarrow> shell" where
  "dispatch w st cmdLine =
     (if strings_Contains cmdLine ''|'' then executePipedCommands st cmdLine
      else
        (case strings_Split cmdLine (CHR '' '') of
           [] \<Rightarrow> st\<lparr>status := IndexOutOfRange\<rparr>
         | first # rest \<Rightarrow>
             (let cmd = (case map_of (aliases st) first of Some aliasCmd \<Rightarrow> aliasCmd | None \<Rightarrow> first)
              in if isBuiltin cmd then executeBuiltinCommand w st cmd rest
                 else if strings_HasSuffix cmdLine ''&'' then startBackground w st cmdLine
                 else if strings_Contains cmdLine ''>'' \<or> strings_Contains cmdLine ''<''
                 then executeRedirectedCommand w st cmdLine
                 else runExternal w st cmd rest)))"

text \<open>
  \<^verbatim>\<open>handleCommand\<close>. The line is trimmed; an empty line does nothing. Any other line is
  appended to the history, then substituted and expanded. A line that then ends in a
  backslash only adds a newline to the input buffer. The call returns, or it hangs in the
  loop of the substitution; the outcome carries the variables of the interpreter as they
  are when the call returns, or as they stay while it hangs. The line
  \<^verbatim>\<open>Executing command\<close> and the prompt go to the display, not to the writer.
\<close>

datatype outcome = Returns shell | Hangs shell


definition handleCommand :: "world \<Rightarrow> shell \<Rightarrow> string \<Rightarrow> outcome" where
  "handleCommand w st line =
     (let cmdLine = strings_TrimSpace line
      in if cmdLine = [] then Returns st
         else
           (let st1 = st\<lparr>history := history st @ [cmdLine]\<rparr>
            in case substituteCommand (sh w) cmdLine of
                 None \<Rightarrow> Hangs st1
               | Some substituted \<Rightarrow>
                   (let expanded = expandEnv w substituted
                    in if strings_HasSuffix expanded [CHR 0x5C]
                       then Returns (st1\<lparr>input := input st1 @ ''\<newline>''\<rparr>)
                       else Returns (dispatch w st1 expanded))))"

text \<open>
  A session: lines are submitted one after the other and time passes in between. After
  \<^verbatim>\<open>os.Exit\<close> or a panic nothing more is executed. \<open>None\<close>: a call hangs, and the
  session never gets past it.
\<close>

datatype action = Submit world string | Elapse nat

fun runActions :: "action list \<Rightarrow> shell \<Rightarrow> shell option" where
  "runActions [] st = Some st"
| "runActions (Submit w line # rest) st =
     (case handleCommand w st line of
        Hangs st' \<Rightarrow> None
      | Returns st' \<Rightarrow> if status st' = Running then runActions rest st' else Some st')"
| "runActions (Elapse d # rest) st = runActions rest (elapse d st)"


subsection \<open>Notions for the properties\<close>

text \<open>The lines that a session records: the trimmed lines that are not empty, in order.\<close>

fun submitted :: "action list \<Rightarrow> string list" where
  "submitted [] = []"
| "submitted (Submit w line # rest) =
     (if strings_TrimSpace line = [] then [] else [strings_TrimSpace line]) @ submitted rest"
| "submitted (Elapse d # rest) = submitted rest"

text \<open>
  \<open>kept st st'\<close>: the history, the path cache, its timers and the clock are the same in both
  states. \<open>cacheStep st st'\<close>: the same, or one name that was not cached has been cached
  and its timer started.
\<close>

definition kept :: "shell \<Rightarrow> shell \<Rightarrow> bool" where
  "kept st st' =
     (history st' = history st \<and> commandCache st' = commandCache st \<and>
      timers st' = timers st \<and> clock st' = clock st)"

definition cacheStep :: "shell \<Rightarrow> shell \<Rightarrow> bool" where
  "cacheStep st st' =
     (history st' = history st \<and> clock st' = clock st \<and>
      ((commandCache st' = commandCache st \<and> timers st' = timers st) \<or>
       (\<exists>cmd path. commandCache st cmd = None \<and>
          commandCache st' = (commandCache st)(cmd \<mapsto> path) \<and>
          timers st' = timers st @ [(clock st + cacheExpiration, cmd)])))"

text \<open>
  The states of a session: it starts with an empty cache and no timer, lines are handled
  and time passes. In such a state every name has at most one pending timer, and every
  pending timer belongs to a cached name.
\<close>

inductive reachable :: "shell \<Rightarrow> bool" where
  start: "commandCache st = Map.empty \<Longrightarrow> timers st = [] \<Longrightarrow> reachable st"
| submit: "reachable st \<Longrightarrow> handleCommand w st line = Returns st' \<Longrightarrow> reachable st'"
| wait: "reachable st \<Longrightarrow> reachable (elapse d st)"

definition timersOk :: "shell \<Rightarrow> bool" where
  "timersOk st =
     (distinct (map snd (timers st)) \<and>
      list_all (\<lambda>timer. commandCache st (snd timer) \<noteq> None) (timers st))"

text \<open>
  \<open>pinned cmd path t st\<close>: the name is cached with this path, and its one pending timer has
  the deadline \<open>t\<close>.
\<close>

definition pinned :: "string \<Rightarrow> string \<Rightarrow> nat \<Rightarrow> shell \<Rightarrow> bool" where
  "pinned cmd path t st =
     (commandCache st cmd = Some path \<and> (t, cmd) \<in> set (timers st) \<and>
      list_all (\<lambda>timer. snd timer = cmd \<longrightarrow> fst timer = t) (timers st))"

subsection \<open>An example machine\<close>

text \<open>
  A machine for concrete runs: \<^verbatim>\<open>false\<close> fails, \<^verbatim>\<open>echo hi\<close> prints \<^verbatim>\<open>hi\<close>, the file
  \<^verbatim>\<open>f\<close> holds the text \<^verbatim>\<open>$(cat f)\<close>; \<^verbatim>\<open>date\<close> and \<^verbatim>\<open>git\<close> are installed, every
  process ends without error and writes nothing, files can be created and opened, and no
  variable occurs in the lines that are expanded.
\<close>

definition exampleWorld :: world where
  "exampleWorld =
     \<lparr>sh = (\<lambda>c. if c = ''false'' then None
                else if c = ''cat f'' then Some ''$(cat f)\<newline>''
                else if c = ''echo hi'' then Some ''hi\<newline>''
                else Some []),
      expandEnv = (\<lambda>s. s),
      pathEnv = ''/bin:/usr/bin'',
      pathListSeparator = CHR '':'',
      joinPath = (\<lambda>dir cmd. dir @ ''/'' @ cmd),
      statOk = (\<lambda>path. path \<in> set [''/bin/date'', ''/usr/bin/git'']),
      runCmd = (\<lambda>args inp out. ([], None)),
      startCmd = (\<lambda>args. Inr 4242),
      createFile = (\<lambda>path. None),
      openFile = (\<lambda>path. None),
      osBuiltin = (\<lambda>cmd args. [])\<rparr>"

text \<open>The state after \<^verbatim>\<open>alias g=git git=date e=echo\<close> in a new session.\<close>

definition aliasShell :: shell where
  "aliasShell = initShell\<lparr>aliases := [(''g'', ''git''), (''git'', ''date''), (''e'', ''echo'')]\<rparr>"




section \<open>Properties\<close>

subsection \<open>The example machine\<close>

lemma exampleWorld_simps:
  "expandEnv exampleWorld = (\<lambda>s. s)"
  "runCmd exampleWorld = (\<lambda>args inp out. ([], None))"
  "startCmd exampleWorld = (\<lambda>args. Inr 4242)"
  "createFile exampleWorld = (\<lambda>path. None)"
  "openFile exampleWorld = (\<lambda>path. None)"
  "osBuiltin exampleWorld = (\<lambda>cmd args. [])"
  by (simp_all add: exampleWorld_def)

lemmas state_simps = emit_def logEvent_def initShell_def exampleWorld_simps

lemma events_runAndReport:
  "events (runAndReport w st name rest inp out) = events st @ [RunProcess (name # rest) inp out]"
  by (simp add: runAndReport_def emit_def logEvent_def Let_def split: prod.splits option.splits)

subsection \<open>Searching\<close>

lemma strings_Index_prefix:
  "strings_Index s sub = Some i \<Longrightarrow> prefix sub (drop i s) \<and> i \<le> length s"
proof (induction s arbitrary: i)
  case Nil
  then show ?case by (simp split: if_splits)
next
  case (Cons c cs)
  then show ?case by (auto split: if_splits)
qed

lemma strings_Index_first:
  "strings_Index s sub = Some i \<Longrightarrow> j < i \<Longrightarrow> \<not> prefix sub (drop j s)"
proof (induction s arbitrary: i j)
  case Nil
  then show ?case by (simp split: if_splits)
next
  case (Cons c cs)
  show ?case
  proof (cases "prefix sub (c # cs)")
    case True
    with Cons.prems show ?thesis by simp
  next
    case False
    with Cons.prems obtain i' where i': "strings_Index cs sub = Some i'" "i = Suc i'"
      by auto
    show ?thesis
    proof (cases j)
      case 0
      with False show ?thesis by simp
    next
      case (Suc j')
      with Cons.prems i' have "j' < i'" by simp
      from Cons.IH[OF i'(1) this] Suc show ?thesis by simp
    qed
  qed
qed

lemma strings_Index_found:
  "prefix sub (drop j s) \<Longrightarrow> j \<le> length s \<Longrightarrow> \<exists>i\<le>j. strings_Index s sub = Some i"
proof (induction s arbitrary: j)
  case Nil
  then show ?case by simp
next
  case (Cons c cs)
  show ?case
  proof (cases "prefix sub (c # cs)")
    case True
    then show ?thesis by simp
  next
    case False
    with Cons.prems obtain j' where j': "j = Suc j'" by (cases j) auto
    with Cons.prems have "prefix sub (drop j' cs)" "j' \<le> length cs" by simp_all
    from Cons.IH[OF this] obtain i where "i \<le> j'" "strings_Index cs sub = Some i" by blast
    with False j' show ?thesis by simp
  qed
qed

lemma strings_Index_char_nth:
  assumes "strings_Index s [c] = Some i"
  shows "i < length s \<and> s ! i = c"
proof -
  from strings_Index_prefix[OF assms] have p: "prefix [c] (drop i s)" and "i \<le> length s"
    by simp_all
  then obtain ys where ys: "drop i s = c # ys" by (auto simp: prefix_def)
  then have "i < length s" by (cases "i < length s") auto
  moreover from ys have "s ! i = c" by (metis nth_via_drop)
  ultimately show ?thesis by simp
qed

lemma strings_Index_char_None: "strings_Index s [c] = None \<longleftrightarrow> c \<notin> set s"
  by (induction s) auto

lemma strings_Contains_char: "strings_Contains s [c] \<longleftrightarrow> c \<in> set s"
  by (simp add: strings_Contains_def strings_Index_char_None)

lemma strings_Split_nonempty: "strings_Split s sep \<noteq> []"
  by (induction s) (auto split: list.splits)

subsection \<open>Command substitution\<close>

lemma substituteCommand_no_marker:
  "strings_Index l ''$('' = None \<Longrightarrow> substituteCommand shf l = Some l"
  by (subst substituteCommand.simps) simp

lemma substituteCommand_open_marker:
  "strings_Index l ''$('' = Some s \<Longrightarrow> strings_Index (drop s l) '')'' = None \<Longrightarrow>
   substituteCommand shf l = Some l"
  by (subst substituteCommand.simps) simp

text \<open>
  When the loop returns, the line it last looked at was changed by the substitution: a
  pass that leaves the line as it is (the command failed, or its output is the marker
  itself) is repeated for ever.
\<close>

lemma substituteCommand_returns_only_if_line_changes:
  assumes ret: "substituteCommand shf l = Some r"
  shows "\<forall>s e. strings_Index l ''$('' = Some s \<longrightarrow> strings_Index (drop s l) '')'' = Some e \<longrightarrow>
           (case shf (take (e + s - (s + 2)) (drop (s + 2) l)) of
              None \<Rightarrow> l
            | Some output \<Rightarrow> take s l @ strings_TrimSpace output @ drop (e + s + 1) l) \<noteq> l"
proof (rule substituteCommand.raw_induct[where
      P = "\<lambda>shf l r. \<forall>s e. strings_Index l ''$('' = Some s \<longrightarrow>
             strings_Index (drop s l) '')'' = Some e \<longrightarrow>
             (case shf (take (e + s - (s + 2)) (drop (s + 2) l)) of
                None \<Rightarrow> l
              | Some output \<Rightarrow> take s l @ strings_TrimSpace output @ drop (e + s + 1) l) \<noteq> l",
      OF _ ret])
  fix f shf l r
  assume IH: "\<And>shf l r. f shf l = Some r \<Longrightarrow>
      \<forall>s e. strings_Index l ''$('' = Some s \<longrightarrow> strings_Index (drop s l) '')'' = Some e \<longrightarrow>
        (case shf (take (e + s - (s + 2)) (drop (s + 2) l)) of
           None \<Rightarrow> l
         | Some output \<Rightarrow> take s l @ strings_TrimSpace output @ drop (e + s + 1) l) \<noteq> l"
    and body: "(case strings_Index l ''$('' of
        None \<Rightarrow> Some l
      | Some start \<Rightarrow>
          (case strings_Index (drop start l) '')'' of
             None \<Rightarrow> Some l
           | Some e \<Rightarrow>
               (let end = e + start;
                    subCmd = take (end - (start + 2)) (drop (start + 2) l)
                in case shf subCmd of
                     Some output \<Rightarrow>
                       f shf (take start l @ strings_TrimSpace output @ drop (end + 1) l)
                   | None \<Rightarrow> f shf l))) = Some r"
  show "\<forall>s e. strings_Index l ''$('' = Some s \<longrightarrow> strings_Index (drop s l) '')'' = Some e \<longrightarrow>
        (case shf (take (e + s - (s + 2)) (drop (s + 2) l)) of
           None \<Rightarrow> l
         | Some output \<Rightarrow> take s l @ strings_TrimSpace output @ drop (e + s + 1) l) \<noteq> l"
  proof (intro allI impI notI)
    fix s e
    assume s: "strings_Index l ''$('' = Some s"
      and e: "strings_Index (drop s l) '')'' = Some e"
      and same: "(case shf (take (e + s - (s + 2)) (drop (s + 2) l)) of
                    None \<Rightarrow> l
                  | Some output \<Rightarrow> take s l @ strings_TrimSpace output @ drop (e + s + 1) l) = l"
    from body s e same have "f shf l = Some r"
      by (simp add: Let_def split: option.splits)
    from IH[OF this] s e same show False by blast
  qed
qed

lemma substituteCommand_loops:
  assumes "strings_Index l ''$('' = Some s" and "strings_Index (drop s l) '')'' = Some e"
    and "(case shf (take (e + s - (s + 2)) (drop (s + 2) l)) of
            None \<Rightarrow> l
          | Some output \<Rightarrow> take s l @ strings_TrimSpace output @ drop (e + s + 1) l) = l"
  shows "substituteCommand shf l = None"
proof (cases "substituteCommand shf l")
  case None
  then show ?thesis .
next
  case (Some r)
  from substituteCommand_returns_only_if_line_changes[OF Some] assms show ?thesis by blast
qed

lemma TrimSpace_echo_false: "strings_TrimSpace ''echo $(false)'' = ''echo $(false)''"
  by code_simp

text \<open>
  C1. The claim: when the command of a marker fails, the marker is left in place and
  \<^verbatim>\<open>substituteCommand\<close> still returns a line. On the line \<^verbatim>\<open>echo $(false)\<close> the code
  does not return: the failed pass leaves the line as it was, the loop finds the same
  marker again and runs the same command again, without end, and \<^verbatim>\<open>handleCommand\<close>,
  which has already appended the line to the history, hangs there.
\<close>

theorem failed_substitution_never_returns:
  "substituteCommand (sh exampleWorld) ''echo $(false)'' = None \<and>
   handleCommand exampleWorld initShell ''echo $(false)'' =
     Hangs (initShell\<lparr>history := [''echo $(false)'']\<rparr>)"
proof -
  have loop: "substituteCommand (sh exampleWorld) ''echo $(false)'' = None"
    by (rule substituteCommand_loops[where s = 5 and e = 7]) (simp_all add: exampleWorld_def)
  then show ?thesis
    by (simp add: handleCommand_def TrimSpace_echo_false initShell_def)
qed

lemma marker_Index_append:
  "\<exists>s\<le>length pre. strings_Index (pre @ ''$('' @ rest) ''$('' = Some s"
  by (rule strings_Index_found) simp_all

lemma marker_Index_first:
  assumes "strings_Index pre ''$('' = None"
  shows "strings_Index (pre @ ''$('' @ rest) ''$('' = Some (length pre)"
proof -
  obtain s where s: "s \<le> length pre" "strings_Index (pre @ ''$('' @ rest) ''$('' = Some s"
    using marker_Index_append by blast
  have "s = length pre"
  proof (rule ccontr)
    assume "s \<noteq> length pre"
    with s have lt: "s < length pre" by simp
    from strings_Index_prefix[OF s(2)] have p: "prefix ''$('' (drop s (pre @ ''$('' @ rest))"
      by simp
    show False
    proof (cases "Suc s < length pre")
      case True
      then obtain a b ys where "drop s pre = a # b # ys"
        by (metis Cons_nth_drop_Suc Suc_lessD)
      with p lt have "prefix ''$('' (drop s pre)" by simp
      from strings_Index_found[OF this] lt assms show False by auto
    next
      case False
      with lt have "Suc s = length pre" by simp
      then obtain a where "drop s pre = [a]"
        by (metis Cons_nth_drop_Suc drop_all lessI order_refl)
      with p lt show False by simp
    qed
  qed
  with s show ?thesis by simp
qed

lemma close_before_marker:
  assumes l: "l = pre @ ''$('' @ rest" and rest: "CHR '')'' \<notin> set rest"
    and s: "s \<le> length pre" and e: "strings_Index (drop s l) '')'' = Some e"
  shows "e + s < length pre"
proof (rule ccontr)
  assume "\<not> e + s < length pre"
  then have ge: "length pre \<le> e + s" by simp
  from strings_Index_char_nth[OF e] have "e < length (drop s l)" "drop s l ! e = CHR '')''"
    by simp_all
  then have lt: "e + s < length l" and at: "l ! (e + s) = CHR '')''"
    by (simp_all add: add.commute)
  from at l ge have "(''$('' @ rest) ! (e + s - length pre) = CHR '')''"
    by (simp add: nth_append)
  moreover from lt l ge have "e + s - length pre < length (''$('' @ rest)" by simp
  ultimately have "CHR '')'' \<in> set (''$('' @ rest)" by (metis nth_mem)
  with rest show False by simp
qed

lemma substituteCommand_keeps_open_marker:
  assumes ret: "substituteCommand shf l = Some r"
  shows "\<forall>pre. l = pre @ ''$('' @ rest \<and> CHR '')'' \<notin> set rest \<longrightarrow> (\<exists>pre'. r = pre' @ ''$('' @ rest)"
proof (rule substituteCommand.raw_induct[where
      P = "\<lambda>shf l r. \<forall>pre. l = pre @ ''$('' @ rest \<and> CHR '')'' \<notin> set rest \<longrightarrow>
             (\<exists>pre'. r = pre' @ ''$('' @ rest)", OF _ ret])
  fix f shf l r
  assume IH: "\<And>shf l r. f shf l = Some r \<Longrightarrow>
      \<forall>pre. l = pre @ ''$('' @ rest \<and> CHR '')'' \<notin> set rest \<longrightarrow> (\<exists>pre'. r = pre' @ ''$('' @ rest)"
    and body: "(case strings_Index l ''$('' of
        None \<Rightarrow> Some l
      | Some start \<Rightarrow>
          (case strings_Index (drop start l) '')'' of
             None \<Rightarrow> Some l
           | Some e \<Rightarrow>
               (let end = e + start;
                    subCmd = take (end - (start + 2)) (drop (start + 2) l)
                in case shf subCmd of
                     Some output \<Rightarrow>
                       f shf (take start l @ strings_TrimSpace output @ drop (end + 1) l)
                   | None \<Rightarrow> f shf l))) = Some r"
  show "\<forall>pre. l = pre @ ''$('' @ rest \<and> CHR '')'' \<notin> set rest \<longrightarrow> (\<exists>pre'. r = pre' @ ''$('' @ rest)"
  proof (intro allI impI, elim conjE)
    fix pre
    assume l: "l = pre @ ''$('' @ rest" and rest: "CHR '')'' \<notin> set rest"
    from marker_Index_append l obtain s where s: "s \<le> length pre" "strings_Index l ''$('' = Some s"
      by blast
    show "\<exists>pre'. r = pre' @ ''$('' @ rest"
    proof (cases "strings_Index (drop s l) '')''")
      case None
      with body s have "r = l" by simp
      with l show ?thesis by blast
    next
      case (Some e)
      from close_before_marker[OF l rest s(1) Some] have lt: "e + s < length pre" .
      show ?thesis
      proof (cases "shf (take (e + s - (s + 2)) (drop (s + 2) l))")
        case None
        with body s Some have "f shf l = Some r" by (simp add: Let_def)
        from IH[OF this] l rest show ?thesis by blast
      next
        case (Some out)
        with body s \<open>strings_Index (drop s l) '')'' = Some e\<close>
        have "f shf (take s l @ strings_TrimSpace out @ drop (e + s + 1) l) = Some r"
          by (simp add: Let_def)
        moreover from l lt s have
          "take s l @ strings_TrimSpace out @ drop (e + s + 1) l =
           (take s pre @ strings_TrimSpace out @ drop (e + s + 1) pre) @ ''$('' @ rest"
          by simp
        ultimately show ?thesis using IH rest by blast
      qed
    qed
  qed
qed

text \<open>
  C10, as amended. Take a line with a marker \<^verbatim>\<open>$(\<close> and no \<^verbatim>\<open>)\<close> at or after it. If
  no marker stands before it, \<^verbatim>\<open>substituteCommand\<close> returns the line as it is, and no
  command is run. In any case, a line that \<^verbatim>\<open>substituteCommand\<close> returns ends with this
  marker and the text after it, unchanged.
\<close>

theorem unterminated_marker_passed_through:
  assumes "l = pre @ ''$('' @ rest" and "CHR '')'' \<notin> set rest"
  shows "(strings_Index pre ''$('' = None \<longrightarrow> substituteCommand shf l = Some l) \<and>
         (\<forall>r. substituteCommand shf l = Some r \<longrightarrow> (\<exists>pre'. r = pre' @ ''$('' @ rest))"
proof (intro conjI impI allI)
  assume first: "strings_Index pre ''$('' = None"
  from marker_Index_first[OF first] assms(1)
  have s: "strings_Index l ''$('' = Some (length pre)" by simp
  from assms have "strings_Index (drop (length pre) l) '')'' = None"
    by (simp add: strings_Index_char_None)
  with s show "substituteCommand shf l = Some l" by (rule substituteCommand_open_marker)
next
  fix r
  assume "substituteCommand shf l = Some r"
  from substituteCommand_keeps_open_marker[OF this] assms
  show "\<exists>pre'. r = pre' @ ''$('' @ rest" by blast
qed

lemma substitute_echo_hi:
  "substituteCommand (sh exampleWorld) ''$(echo hi) $(date'' = Some ''hi $(date''"
proof -
  have t: "strings_TrimSpace ''hi\<newline>'' = ''hi''" by code_simp
  have "substituteCommand (sh exampleWorld) ''$(echo hi) $(date'' =
        substituteCommand (sh exampleWorld) ''hi $(date''"
    by (subst substituteCommand.simps) (simp add: exampleWorld_def t)
  also have "\<dots> = Some ''hi $(date''"
    by (rule substituteCommand_open_marker[where s = 3]) simp_all
  finally show ?thesis .
qed

theorem unterminated_marker_passed_through_witness:
  "substituteCommand (sh exampleWorld) ''echo $(date'' = Some ''echo $(date'' \<and>
   substituteCommand (sh exampleWorld) ''$(echo hi) $(date'' = Some ''hi $(date'' \<and>
   ''hi $(date'' = ''hi '' @ ''$('' @ ''date''"
proof -
  have a: "''echo $(date'' = ''echo '' @ ''$('' @ ''date''" by simp
  have b: "CHR '')'' \<notin> set ''date''" by simp
  have c: "strings_Index ''echo '' ''$('' = None" by simp
  have a': "''$(echo hi) $(date'' = ''$(echo hi) '' @ ''$('' @ ''date''" by simp
  from unterminated_marker_passed_through[OF a b, of "sh exampleWorld"] c
  have d: "substituteCommand (sh exampleWorld) ''echo $(date'' = Some ''echo $(date''"
    by blast
  from unterminated_marker_passed_through[OF a' b, of "sh exampleWorld"] substitute_echo_hi
  have "\<exists>pre'. ''hi $(date'' = pre' @ ''$('' @ ''date''" by blast
  with d substitute_echo_hi show ?thesis by simp
qed

text \<open>
  The claim as stated promises a result for every such line. On \<^verbatim>\<open>$(cat f) $(x\<close> the
  second marker has no \<^verbatim>\<open>)\<close> after it, but the first one is replaced by the content of
  \<^verbatim>\<open>f\<close>, which is that marker again: the loop starts over on the same line and never
  returns.
\<close>

theorem unterminated_marker_counterexample:
  "strings_Index ''$(cat f) $(x'' ''$(x'' = Some 9 \<and> CHR '')'' \<notin> set ''x'' \<and>
   substituteCommand (sh exampleWorld) ''$(cat f) $(x'' = None"
proof -
  have t: "strings_TrimSpace ''$(cat f)\<newline>'' = ''$(cat f)''" by code_simp
  have "substituteCommand (sh exampleWorld) ''$(cat f) $(x'' = None"
    by (rule substituteCommand_loops[where s = 0 and e = 7]) (simp_all add: exampleWorld_def t)
  then show ?thesis by simp
qed

subsection \<open>Pipelines\<close>

lemma strings_HasSuffix_char: "strings_HasSuffix s [c] \<longleftrightarrow> s \<noteq> [] \<and> last s = c"
  by (cases s rule: rev_cases) (auto simp: strings_HasSuffix_def)

lemma handleCommand_dispatch:
  assumes "strings_TrimSpace line \<noteq> []"
    and "substituteCommand (sh w) (strings_TrimSpace line) = Some s"
    and "\<not> strings_HasSuffix (expandEnv w s) [CHR 0x5C]"
  shows "handleCommand w st line =
         Returns (dispatch w (st\<lparr>history := history st @ [strings_TrimSpace line]\<rparr>) (expandEnv w s))"
  using assms by (simp add: handleCommand_def Let_def)

lemma Fields_TrimSpace_empty: "strings_Fields (strings_TrimSpace []) = []"
  by code_simp

lemma buildStages_map:
  "buildStages xs =
     (if [] \<in> set (map (\<lambda>s. strings_Fields (strings_TrimSpace s)) xs) then None
      else Some (map (\<lambda>s. strings_Fields (strings_TrimSpace s)) xs))"
  by (induction xs) (auto split: list.splits)

lemma executePipedCommands_stages:
  "executePipedCommands st l =
     (let stages = map (\<lambda>s. strings_Fields (strings_TrimSpace s)) (strings_Split l (CHR ''|''))
      in if [] \<in> set stages then st\<lparr>status := IndexOutOfRange\<rparr>
         else logEvent st (RunPipeline stages))"
  by (simp add: executePipedCommands_def buildStages_map Let_def)

text \<open>
  C2. A line that contains \<^verbatim>\<open>|\<close> is run as a pipeline, whatever else it contains: the
  result depends on nothing but the stages, the pieces of the line between the separators,
  each split at white space. Neither the alias table nor the builtins, a trailing \<^verbatim>\<open>&\<close>
  or an operator \<^verbatim>\<open>>\<close> or \<^verbatim>\<open><\<close> is looked at: every token of a stage, these operators
  too, is an argument of that stage, and no file is created or opened.
\<close>

theorem pipe_takes_precedence:
  assumes "CHR ''|'' \<in> set l"
  shows "dispatch w st l =
     (let stages = map (\<lambda>s. strings_Fields (strings_TrimSpace s)) (strings_Split l (CHR ''|''))
      in if [] \<in> set stages then st\<lparr>status := IndexOutOfRange\<rparr>
         else logEvent st (RunPipeline stages))"
  using assms
  by (simp add: dispatch_def strings_Contains_char executePipedCommands_stages)

lemma stages_example:
  "map (\<lambda>s. strings_Fields (strings_TrimSpace s)) (strings_Split ''echo hi | cat > f &'' (CHR ''|''))
   = [[''echo'', ''hi''], [''cat'', ''>'', ''f'', ''&'']]"
  by code_simp

lemma TrimSpace_pipe_example: "strings_TrimSpace ''echo hi | cat > f &'' = ''echo hi | cat > f &''"
  by code_simp

theorem pipe_takes_precedence_witness:
  "dispatch exampleWorld aliasShell ''e hi | cat > f &'' =
     logEvent aliasShell (RunPipeline [[''e'', ''hi''], [''cat'', ''>'', ''f'', ''&'']]) \<and>
   handleCommand exampleWorld initShell ''echo hi | cat > f &'' =
     Returns (initShell\<lparr>history := [''echo hi | cat > f &''],
                     events := [RunPipeline [[''echo'', ''hi''], [''cat'', ''>'', ''f'', ''&'']]]\<rparr>)"
proof -
  have p: "CHR ''|'' \<in> set ''echo hi | cat > f &''" "CHR ''|'' \<in> set ''e hi | cat > f &''" by simp_all
  have st: "map (\<lambda>s. strings_Fields (strings_TrimSpace s)) (strings_Split ''e hi | cat > f &'' (CHR ''|''))
   = [[''e'', ''hi''], [''cat'', ''>'', ''f'', ''&'']]"
    by code_simp
  have 1: "dispatch exampleWorld aliasShell ''e hi | cat > f &'' =
     logEvent aliasShell (RunPipeline [[''e'', ''hi''], [''cat'', ''>'', ''f'', ''&'']])"
    using pipe_takes_precedence[OF p(2), of exampleWorld aliasShell]
    unfolding st by simp
  have s: "substituteCommand (sh exampleWorld) ''echo hi | cat > f &'' = Some ''echo hi | cat > f &''"
    by (rule substituteCommand_no_marker) simp
  have "handleCommand exampleWorld initShell ''echo hi | cat > f &'' =
        Returns (dispatch exampleWorld (initShell\<lparr>history := history initShell @ [''echo hi | cat > f &'']\<rparr>)
                ''echo hi | cat > f &'')"
    using handleCommand_dispatch[of "''echo hi | cat > f &''" exampleWorld "''echo hi | cat > f &''" initShell]
    by (simp add: TrimSpace_pipe_example s exampleWorld_simps strings_HasSuffix_char)
  also have "dispatch exampleWorld (initShell\<lparr>history := history initShell @ [''echo hi | cat > f &'']\<rparr>)
                ''echo hi | cat > f &'' =
     logEvent (initShell\<lparr>history := history initShell @ [''echo hi | cat > f &'']\<rparr>)
       (RunPipeline [[''echo'', ''hi''], [''cat'', ''>'', ''f'', ''&'']])"
    using pipe_takes_precedence[OF p(1), of exampleWorld
        "initShell\<lparr>history := history initShell @ [''echo hi | cat > f &'']\<rparr>"]
    unfolding stages_example by simp
  finally have 2: "handleCommand exampleWorld initShell ''echo hi | cat > f &'' =
     Returns (initShell\<lparr>history := [''echo hi | cat > f &''],
                     events := [RunPipeline [[''echo'', ''hi''], [''cat'', ''>'', ''f'', ''&'']]]\<rparr>)"
    by (simp add: logEvent_def initShell_def)
  from 1 2 show ?thesis by simp
qed

text \<open>
  C6. A line in piped mode with a stage that holds no token (the line ends in \<^verbatim>\<open>|\<close>, or
  contains \<^verbatim>\<open>||\<close>) reaches the index \<^verbatim>\<open>cmdArgs[0]\<close> on an empty list: nothing guards
  it, the program panics and no process is started.
\<close>

theorem empty_stage_panics:
  assumes "CHR ''|'' \<in> set l" and "s \<in> set (strings_Split l (CHR ''|''))"
    and "strings_Fields (strings_TrimSpace s) = []"
  shows "dispatch w st l = st\<lparr>status := IndexOutOfRange\<rparr>"
proof -
  from assms(2,3) have "[] \<in> set (map (\<lambda>s. strings_Fields (strings_TrimSpace s)) (strings_Split l (CHR ''|'')))"
    by force
  with assms(1) show ?thesis
    by (simp add: dispatch_def strings_Contains_char executePipedCommands_stages)
qed

theorem empty_stage_panics_witness:
  "dispatch exampleWorld initShell ''ls |'' = initShell\<lparr>status := IndexOutOfRange\<rparr> \<and>
   dispatch exampleWorld initShell ''ls || cat'' = initShell\<lparr>status := IndexOutOfRange\<rparr> \<and>
   handleCommand exampleWorld initShell ''ls |'' =
     Returns (initShell\<lparr>history := [''ls |''], status := IndexOutOfRange\<rparr>)"
proof -
  have a: "CHR ''|'' \<in> set ''ls |''" "[] \<in> set (strings_Split ''ls |'' (CHR ''|''))"
    and b: "CHR ''|'' \<in> set ''ls || cat''" "[] \<in> set (strings_Split ''ls || cat'' (CHR ''|''))"
    by simp_all
  have t: "strings_TrimSpace ''ls |'' = ''ls |''" by code_simp
  have h: "history initShell = []" by (simp add: initShell_def)
  have e: "expandEnv exampleWorld = (\<lambda>s. s)" "sh exampleWorld = sh exampleWorld" by (simp_all add: exampleWorld_def)
  have s: "substituteCommand (sh exampleWorld) ''ls |'' = Some ''ls |''"
    by (rule substituteCommand_no_marker) simp
  from empty_stage_panics[OF a Fields_TrimSpace_empty]
       empty_stage_panics[OF b Fields_TrimSpace_empty]
  show ?thesis
    by (simp add: handleCommand_def t s e(1) h strings_HasSuffix_char Let_def)
qed

subsection \<open>Aliases\<close>

lemma scanPath_git: "scanPath exampleWorld ''git'' = Some ''/usr/bin/git''"
  by (simp add: scanPath_def exampleWorld_def)


lemma alias_example:
  "executeBuiltinCommand exampleWorld initShell ''alias'' [''g=git'', ''git=date'', ''e=echo'']
   = aliasShell"
  by (simp add: executeBuiltinCommand_def strings_SplitN2_def strings_Trim_def initShell_def
      aliasShell_def)




subsection \<open>Job control\<close>

lemmas Atoi_defs = strconv_Atoi_def parseDigits_def isDigit_def digitsValue_def inIntRange_def

lemma Atoi_1: "strconv_Atoi ''1'' = Some 1"
  by (simp add: Atoi_defs)

lemma TrimSpace_examples:
  "strings_TrimSpace ''sleep 100 &'' = ''sleep 100 &''"
  "strings_TrimSpace ''bg 1'' = ''bg 1''"
  "strings_Fields ''sleep 100 '' = [''sleep'', ''100'']"
  by code_simp+

lemma showNat_examples: "showNat (Suc 0) = ''1''" "showNat 2 = ''2''" "showNat 4242 = ''4242''"
  by (simp_all add: showNat.simps digitChar_def)

lemma executeBuiltinCommand_bg:
  "executeBuiltinCommand w st ''bg'' args =
     (case args of
        [] \<Rightarrow> st
      | arg # rest \<Rightarrow>
          (case validJob st arg of
             Some i \<Rightarrow>
               emit st ''Failed to send continue signal: SIGCONT not supported on Windows\<newline>''
           | None \<Rightarrow> emit st (''bg: '' @ arg @ '': no such job\<newline>'')))"
  by (simp add: executeBuiltinCommand_def sendSignalContinue_def split: list.splits option.splits)

text \<open>
  C5. The claim: for a valid job number \<^verbatim>\<open>bg N\<close> sends a continue signal to the process
  of job \<open>N\<close>. The code calls \<^verbatim>\<open>sendSignalContinue()\<close> without the job, the function
  that only returns the error of the platform without the signal: with one job, \<^verbatim>\<open>bg 1\<close>
  writes that error and sends nothing, where the function of \<^verbatim>\<open>signal_unix.go\<close> would
  signal the process. The last part runs \<^verbatim>\<open>sleep 100 &\<close> and \<^verbatim>\<open>bg 1\<close> in a session.
\<close>

theorem bg_sends_no_signal:
  "executeBuiltinCommand w (st\<lparr>jobs := [j]\<rparr>) ''bg'' [''1''] =
     emit (st\<lparr>jobs := [j]\<rparr>) ''Failed to send continue signal: SIGCONT not supported on Windows\<newline>'' \<and>
   events (executeBuiltinCommand w (st\<lparr>jobs := [j]\<rparr>) ''bg'' [''1'']) = events st \<and>
   events (fst (sendSignalContinue_unix signalError j (st\<lparr>jobs := [j]\<rparr>))) =
     events st @ [SignalContinue (pid j)] \<and>
   map_option (\<lambda>st'. (jobs st', events st', written st'))
     (runActions [Submit exampleWorld ''sleep 100 &'', Submit exampleWorld ''bg 1''] initShell) =
     Some ([\<lparr>pid = 4242, argv = [''sleep'', ''100'']\<rparr>],
           [StartProcess [''sleep'', ''100'']],
           ''[1] 4242\<newline>Failed to send continue signal: SIGCONT not supported on Windows\<newline>'')"
proof -
  have 1: "executeBuiltinCommand w (st\<lparr>jobs := [j]\<rparr>) ''bg'' [''1''] =
     emit (st\<lparr>jobs := [j]\<rparr>) ''Failed to send continue signal: SIGCONT not supported on Windows\<newline>''"
    by (simp add: executeBuiltinCommand_bg validJob_def Atoi_1)
  have 2: "events (fst (sendSignalContinue_unix signalError j (st\<lparr>jobs := [j]\<rparr>))) =
     events st @ [SignalContinue (pid j)]"
    by (simp add: sendSignalContinue_unix_def logEvent_def)
  have s1: "substituteCommand (sh exampleWorld) ''sleep 100 &'' = Some ''sleep 100 &''"
    "substituteCommand (sh exampleWorld) ''bg 1'' = Some ''bg 1''"
    by (rule substituteCommand_no_marker, simp)+
  have b: "\<not> isBuiltin ''sleep''" "isBuiltin ''bg''"
    by (simp_all add: isBuiltin_def builtins_def)
  have 3: "handleCommand exampleWorld initShell ''sleep 100 &'' =
     Returns (initShell\<lparr>history := [''sleep 100 &''],
             jobs := [\<lparr>pid = 4242, argv = [''sleep'', ''100'']\<rparr>],
             written := ''[1] 4242\<newline>'',
             events := [StartProcess [''sleep'', ''100'']]\<rparr>)"
    by (simp add: handleCommand_def TrimSpace_examples s1 Let_def strings_HasSuffix_char dispatch_def
        strings_Contains_def b startBackground_def strings_TrimSuffix_def showNat_examples
        state_simps)
  have 4: "handleCommand exampleWorld (initShell\<lparr>history := [''sleep 100 &''],
             jobs := [\<lparr>pid = 4242, argv = [''sleep'', ''100'']\<rparr>],
             written := ''[1] 4242\<newline>'',
             events := [StartProcess [''sleep'', ''100'']]\<rparr>) ''bg 1'' =
     Returns (initShell\<lparr>history := [''sleep 100 &'', ''bg 1''],
             jobs := [\<lparr>pid = 4242, argv = [''sleep'', ''100'']\<rparr>],
             written := ''[1] 4242\<newline>Failed to send continue signal: SIGCONT not supported on Windows\<newline>'',
             events := [StartProcess [''sleep'', ''100'']]\<rparr>)"
    by (simp add: handleCommand_def TrimSpace_examples s1 Let_def strings_HasSuffix_char dispatch_def
        strings_Contains_def b executeBuiltinCommand_bg validJob_def Atoi_1
        state_simps)
  have 5: "map_option (\<lambda>st'. (jobs st', events st', written st'))
     (runActions [Submit exampleWorld ''sleep 100 &'', Submit exampleWorld ''bg 1''] initShell) =
     Some ([\<lparr>pid = 4242, argv = [''sleep'', ''100'']\<rparr>],
           [StartProcess [''sleep'', ''100'']],
           ''[1] 4242\<newline>Failed to send continue signal: SIGCONT not supported on Windows\<newline>'')"
    by (simp add: 3 4) (simp add: initShell_def)
  from 1 2 5 show ?thesis by (simp add: emit_def)
qed


subsection \<open>Redirection\<close>

text \<open>
  C7, as amended. \<^verbatim>\<open>>\<close> is looked for first. If it occurs, and a command stands before
  its first occurrence, the command is the text before it split at white space and the
  target the trimmed text after it, whether the line contains \<^verbatim>\<open><\<close> or not. An empty
  target creates no file: the command runs with its output discarded. Any other target is
  created: on an error the error is written and nothing runs, otherwise the file is the
  standard output of the process and is closed afterwards. Only when \<^verbatim>\<open>>\<close> occurs
  nowhere is \<^verbatim>\<open><\<close> looked for, and then the same holds with the target opened for
  reading as the standard input.
\<close>

theorem redirection_recognizes_one_operator:
  "(\<forall>i name rest.
      strings_Index l ''>'' = Some i \<and>
      strings_Fields (strings_TrimSpace (take i l)) = name # rest \<longrightarrow>
      executeRedirectedCommand w st l =
        (let target = strings_TrimSpace (drop (i + 1) l)
         in if target = [] then runAndReport w st name rest NoInput Discard
            else case createFile w target of
                   Some msg \<Rightarrow>
                     emit st (''Error creating file '' @ target @ '': '' @ msg @ ''\<newline>'')
                 | None \<Rightarrow>
                     logEvent
                       (runAndReport w (logEvent st (CreateFile target)) name rest NoInput
                          (ToFile target))
                       (CloseFile target))) \<and>
   (\<forall>j name rest.
      strings_Index l ''>'' = None \<and> strings_Index l ''<'' = Some j \<and>
      strings_Fields (strings_TrimSpace (take j l)) = name # rest \<longrightarrow>
      executeRedirectedCommand w st l =
        (let target = strings_TrimSpace (drop (j + 1) l)
         in if target = [] then runAndReport w st name rest NoInput Discard
            else case openFile w target of
                   Some msg \<Rightarrow>
                     emit st (''Error opening file '' @ target @ '': '' @ msg @ ''\<newline>'')
                 | None \<Rightarrow>
                     logEvent
                       (runAndReport w (logEvent st (OpenFile target)) name rest (FromFile target)
                          Discard)
                       (CloseFile target)))"
  by (auto simp: executeRedirectedCommand_def Let_def split: option.splits)

lemma redirect_examples:
  "strings_Fields (strings_TrimSpace ''date '') = [''date'']"
  "strings_TrimSpace '' out.txt < in.txt'' = ''out.txt < in.txt''"
  "strings_Fields (strings_TrimSpace ''sort '') = [''sort'']"
  "strings_TrimSpace '' in.txt'' = ''in.txt''"
  "strings_TrimSpace [] = []"
  by code_simp+

theorem redirection_recognizes_one_operator_witness:
  "events (executeRedirectedCommand exampleWorld initShell ''date > out.txt < in.txt'') =
     [CreateFile ''out.txt < in.txt'',
      RunProcess [''date''] NoInput (ToFile ''out.txt < in.txt''),
      CloseFile ''out.txt < in.txt''] \<and>
   events (executeRedirectedCommand exampleWorld initShell ''sort < in.txt'') =
     [OpenFile ''in.txt'', RunProcess [''sort''] (FromFile ''in.txt'') Discard, CloseFile ''in.txt'']"
proof -
  have i: "strings_Index ''date > out.txt < in.txt'' ''>'' = Some 5"
    "strings_Index ''sort < in.txt'' ''>'' = None" "strings_Index ''sort < in.txt'' ''<'' = Some 5"
    by simp_all
  have 1: "executeRedirectedCommand exampleWorld initShell ''date > out.txt < in.txt'' =
           logEvent (runAndReport exampleWorld (logEvent initShell (CreateFile ''out.txt < in.txt''))
                       ''date'' [] NoInput (ToFile ''out.txt < in.txt''))
             (CloseFile ''out.txt < in.txt'')"
    using redirection_recognizes_one_operator[of "''date > out.txt < in.txt''" exampleWorld initShell,
        THEN conjunct1, rule_format, of 5 "''date''" "[]"] i
    by (simp add: redirect_examples exampleWorld_simps Let_def)
  have 2: "executeRedirectedCommand exampleWorld initShell ''sort < in.txt'' =
           logEvent (runAndReport exampleWorld (logEvent initShell (OpenFile ''in.txt''))
                       ''sort'' [] (FromFile ''in.txt'') Discard)
             (CloseFile ''in.txt'')"
    using redirection_recognizes_one_operator[of "''sort < in.txt''" exampleWorld initShell,
        THEN conjunct2, rule_format, of 5 "''sort''" "[]"] i
    by (simp add: redirect_examples exampleWorld_simps Let_def)
  show ?thesis
    unfolding 1 2 by (simp add: events_runAndReport logEvent_def initShell_def)
qed

text \<open>
  The claim as stated has the target created whenever the output branch is taken. The
  line \<^verbatim>\<open>date >\<close> is in redirected mode and takes the output branch, but its target is
  empty: no file is created and the output of \<^verbatim>\<open>date\<close> is discarded.
\<close>

theorem redirection_counterexample:
  "strings_Index ''date >'' ''>'' = Some 5 \<and>
   dispatch exampleWorld initShell ''date >'' =
     executeRedirectedCommand exampleWorld initShell ''date >'' \<and>
   events (executeRedirectedCommand exampleWorld initShell ''date >'') =
     [RunProcess [''date''] NoInput Discard]"
proof -
  have b: "\<not> isBuiltin ''date''" by (simp add: isBuiltin_def builtins_def)
  have 1: "dispatch exampleWorld initShell ''date >'' =
     executeRedirectedCommand exampleWorld initShell ''date >''"
    by (simp add: dispatch_def strings_Contains_def b strings_HasSuffix_char initShell_def)
  have 2: "executeRedirectedCommand exampleWorld initShell ''date >'' =
           runAndReport exampleWorld initShell ''date'' [] NoInput Discard"
    by (simp add: executeRedirectedCommand_def redirect_examples)
  show ?thesis
    unfolding 1 2 by (simp add: events_runAndReport initShell_def)
qed

subsection \<open>Customization\<close>

lemma executeBuiltinCommand_shell:
  "executeBuiltinCommand w st ''shell'' args =
     (if args \<noteq> [] then handleShellCustomization st args else printShellCustomization st)"
  by (simp add: executeBuiltinCommand_def)

text \<open>
  C9. The builtin \<^verbatim>\<open>shell\<close> with an option and a value: \<^verbatim>\<open>bg-opacity\<close> takes an
  integer from 0 to 100, \<^verbatim>\<open>text-size\<close> an integer above 0, \<^verbatim>\<open>text-bold\<close> the words
  \<^verbatim>\<open>true\<close> and \<^verbatim>\<open>false\<close>. Any other value writes the error message of the option and
  leaves the setting as it was, and no option changes a setting other than its own.
\<close>

theorem shell_customization_validates:
  "executeBuiltinCommand w st ''shell'' (option # v # vs) =
     handleShellCustomization st (option # v # vs) \<and>
   (let val = strings_Join (v # vs) '' '';
        st' = handleShellCustomization st (option # v # vs)
    in (option = ''bg-opacity'' \<longrightarrow>
          (case strconv_Atoi val of
             Some n \<Rightarrow>
               if 0 \<le> n \<and> n \<le> 100 then shellBgOpacity st' = n
               else shellBgOpacity st' = shellBgOpacity st \<and>
                    written st' = written st
                      @ ''Invalid opacity value. Please enter a value between 0 and 100.\<newline>''
           | None \<Rightarrow>
               shellBgOpacity st' = shellBgOpacity st \<and>
               written st' = written st
                 @ ''Invalid opacity value. Please enter a value between 0 and 100.\<newline>'')) \<and>
       (option = ''text-size'' \<longrightarrow>
          (case strconv_Atoi val of
             Some n \<Rightarrow>
               if 0 < n then shellTextSize st' = n
               else shellTextSize st' = shellTextSize st \<and>
                    written st' = written st
                      @ ''Invalid text size. Please enter a positive integer.\<newline>''
           | None \<Rightarrow>
               shellTextSize st' = shellTextSize st \<and>
               written st' = written st
                 @ ''Invalid text size. Please enter a positive integer.\<newline>'')) \<and>
       (option = ''text-bold'' \<longrightarrow>
          (if val = ''true'' then shellTextBold st' = True
           else if val = ''false'' then shellTextBold st' = False
           else shellTextBold st' = shellTextBold st \<and>
                written st' = written st
                  @ ''Invalid value for text-bold. Use true or false.\<newline>'')) \<and>
       (option \<noteq> ''bg-opacity'' \<longrightarrow> shellBgOpacity st' = shellBgOpacity st) \<and>
       (option \<noteq> ''text-size'' \<longrightarrow> shellTextSize st' = shellTextSize st) \<and>
       (option \<noteq> ''text-color'' \<longrightarrow> shellTextColor st' = shellTextColor st) \<and>
       (option \<noteq> ''text-bold'' \<longrightarrow> shellTextBold st' = shellTextBold st) \<and>
       (option \<noteq> ''prompt-style'' \<longrightarrow> shellPromptStyle st' = shellPromptStyle st))"
proof -
  consider (opacity) "option = ''bg-opacity''" | (size) "option = ''text-size''"
    | (color) "option = ''text-color''" | (bold) "option = ''text-bold''"
    | (style) "option = ''prompt-style''"
    | (other) "option \<noteq> ''bg-opacity''" "option \<noteq> ''text-size''" "option \<noteq> ''text-color''"
        "option \<noteq> ''text-bold''" "option \<noteq> ''prompt-style''"
    by blast
  then show ?thesis
  proof cases
    case opacity
    then show ?thesis
      by (simp add: executeBuiltinCommand_shell handleShellCustomization_def Let_def emit_def
          split: option.splits)
  next
    case size
    then show ?thesis
      by (simp add: executeBuiltinCommand_shell handleShellCustomization_def Let_def emit_def
          split: option.splits)
  next
    case color
    then show ?thesis
      by (simp add: executeBuiltinCommand_shell handleShellCustomization_def Let_def emit_def)
  next
    case bold
    then show ?thesis
      by (simp add: executeBuiltinCommand_shell handleShellCustomization_def Let_def emit_def)
  next
    case style
    then show ?thesis
      by (simp add: executeBuiltinCommand_shell handleShellCustomization_def Let_def emit_def)
  next
    case other
    then show ?thesis
      by (simp add: executeBuiltinCommand_shell handleShellCustomization_def Let_def emit_def)
  qed
qed

lemma Atoi_examples:
  "strconv_Atoi ''50'' = Some 50" "strconv_Atoi ''101'' = Some 101"
  "strconv_Atoi ''0'' = Some 0" "strconv_Atoi ''12 pt'' = None"
  by (simp_all add: Atoi_defs)



theorem shell_customization_validates_witness:
  "shellBgOpacity (handleShellCustomization initShell [''bg-opacity'', ''50'']) = 50 \<and>
   shellTextSize (handleShellCustomization initShell [''bg-opacity'', ''50'']) = 12 \<and>
   shellBgOpacity (handleShellCustomization initShell [''bg-opacity'', ''101'']) = 100 \<and>
   written (handleShellCustomization initShell [''bg-opacity'', ''101'']) =
     ''Invalid opacity value. Please enter a value between 0 and 100.\<newline>'' \<and>
   shellTextSize (handleShellCustomization initShell [''text-size'', ''12'', ''pt'']) = 12 \<and>
   shellTextBold (handleShellCustomization initShell [''text-bold'', ''yes'']) = False"
proof -
  have i: "shellBgOpacity initShell = 100" "shellTextSize initShell = 12"
    "shellTextBold initShell = False" "written initShell = []"
    by (simp_all add: initShell_def)
  have 1: "shellBgOpacity (handleShellCustomization initShell [''bg-opacity'', ''50'']) = 50 \<and>
           shellTextSize (handleShellCustomization initShell [''bg-opacity'', ''50'']) = 12"
    using shell_customization_validates[of exampleWorld initShell "''bg-opacity''" "''50''" "[]"]
    by (simp add: Let_def Atoi_examples i)
  have 2: "shellBgOpacity (handleShellCustomization initShell [''bg-opacity'', ''101'']) = 100 \<and>
           written (handleShellCustomization initShell [''bg-opacity'', ''101'']) =
             ''Invalid opacity value. Please enter a value between 0 and 100.\<newline>''"
    using shell_customization_validates[of exampleWorld initShell "''bg-opacity''" "''101''" "[]"]
    by (simp add: Let_def Atoi_examples i)
  have 3: "shellTextSize (handleShellCustomization initShell [''text-size'', ''12'', ''pt'']) = 12"
    using shell_customization_validates[of exampleWorld initShell "''text-size''" "''12''" "[''pt'']"]
    by (simp add: Let_def Atoi_examples i)
  have 4: "shellTextBold (handleShellCustomization initShell [''text-bold'', ''yes'']) = False"
    using shell_customization_validates[of exampleWorld initShell "''text-bold''" "''yes''" "[]"]
    by (simp add: Let_def i)
  from 1 2 3 4 show ?thesis by simp
qed

subsection \<open>What a command leaves unchanged\<close>

lemma kept_refl: "kept st st"
  by (simp add: kept_def)

lemma kept_trans: "kept a b \<Longrightarrow> kept b c \<Longrightarrow> kept a c"
  by (simp add: kept_def)

lemma kept_emit: "kept st (emit st text)"
  by (simp add: kept_def emit_def)

lemma kept_logEvent: "kept st (logEvent st e)"
  by (simp add: kept_def logEvent_def)

lemma kept_emit': "kept st st' \<Longrightarrow> kept st (emit st' text)"
  by (simp add: kept_def emit_def)

lemma kept_logEvent': "kept st st' \<Longrightarrow> kept st (logEvent st' e)"
  by (simp add: kept_def logEvent_def)

lemma kept_status: "kept st (st\<lparr>status := s\<rparr>)"
  by (simp add: kept_def)

lemmas kept_intros = kept_refl kept_emit' kept_logEvent' kept_status

lemma kept_osCall: "kept st (osCall w st cmd args)"
  by (simp add: osCall_def kept_intros)

lemma kept_setAliases: "kept st (setAliases st args)"
proof (induction args arbitrary: st)
  case Nil
  show ?case by (simp add: kept_refl)
next
  case (Cons a args)
  have step: "kept st (st\<lparr>aliases := al\<rparr>)" for al
    by (simp add: kept_def)
  show ?case
    by (auto split: list.splits intro: Cons.IH kept_trans[OF step Cons.IH])
qed

lemma kept_removeAliases: "kept st (removeAliases st args)"
proof (induction args arbitrary: st)
  case Nil
  show ?case by (simp add: kept_refl)
next
  case (Cons a args)
  have step: "kept st (st\<lparr>aliases := al\<rparr>)" for al
    by (simp add: kept_def)
  show ?case
    by (auto intro: kept_trans[OF step Cons.IH])
qed

lemma kept_exportVars: "kept st (exportVars st args)"
proof (induction args arbitrary: st)
  case Nil
  show ?case by (simp add: kept_refl)
next
  case (Cons a args)
  have step: "kept st ((logEvent st e)\<lparr>envVars := ev\<rparr>)" for e ev
    by (simp add: kept_def logEvent_def)
  show ?case
    by (auto split: list.splits intro: Cons.IH kept_trans[OF step Cons.IH])
qed

lemma kept_unsetVars: "kept st (unsetVars st args)"
proof (induction args arbitrary: st)
  case Nil
  show ?case by (simp add: kept_refl)
next
  case (Cons a args)
  have step: "kept st ((logEvent st e)\<lparr>envVars := ev\<rparr>)" for e ev
    by (simp add: kept_def logEvent_def)
  show ?case
    by (auto intro: kept_trans[OF step Cons.IH])
qed

lemma kept_handleShellCustomization: "kept st (handleShellCustomization st args)"
proof (cases args)
  case Nil
  then show ?thesis by (simp add: handleShellCustomization_def kept_emit)
next
  case (Cons option rest)
  show ?thesis
  proof (cases rest)
    case Nil
    with Cons show ?thesis by (simp add: handleShellCustomization_def kept_emit)
  next
    case (Cons v vs)
    consider (opacity) "option = ''bg-opacity''" | (size) "option = ''text-size''"
      | (color) "option = ''text-color''" | (bold) "option = ''text-bold''"
      | (style) "option = ''prompt-style''"
      | (other) "option \<noteq> ''bg-opacity''" "option \<noteq> ''text-size''" "option \<noteq> ''text-color''"
          "option \<noteq> ''text-bold''" "option \<noteq> ''prompt-style''"
      by blast
    then show ?thesis
    proof cases
      case opacity
      with \<open>args = option # rest\<close> Cons show ?thesis
        by (simp add: handleShellCustomization_def kept_def emit_def Let_def split: option.splits)
    next
      case size
      with \<open>args = option # rest\<close> Cons show ?thesis
        by (simp add: handleShellCustomization_def kept_def emit_def Let_def split: option.splits)
    next
      case color
      with \<open>args = option # rest\<close> Cons show ?thesis
        by (simp add: handleShellCustomization_def kept_def emit_def Let_def)
    next
      case bold
      with \<open>args = option # rest\<close> Cons show ?thesis
        by (simp add: handleShellCustomization_def kept_def emit_def Let_def)
    next
      case style
      with \<open>args = option # rest\<close> Cons show ?thesis
        by (simp add: handleShellCustomization_def kept_def emit_def Let_def)
    next
      case other
      with \<open>args = option # rest\<close> Cons show ?thesis
        by (simp add: handleShellCustomization_def kept_def emit_def Let_def)
    qed
  qed
qed

lemma kept_printShellCustomization: "kept st (printShellCustomization st)"
  by (simp add: printShellCustomization_def kept_emit)

lemma kept_executeExternalCommand: "kept st (executeExternalCommand w st path args)"
  by (simp add: executeExternalCommand_def kept_def emit_def logEvent_def Let_def
      split: prod.splits option.splits error_class.splits)

lemma kept_runAndReport: "kept st (runAndReport w st name rest inp out)"
  by (simp add: runAndReport_def kept_def emit_def logEvent_def Let_def
      split: prod.splits option.splits)

lemma kept_executePipedCommands: "kept st (executePipedCommands st l)"
  by (simp add: executePipedCommands_def kept_intros split: option.splits)

lemma kept_startBackground: "kept st (startBackground w st l)"
  by (simp add: startBackground_def kept_def emit_def logEvent_def
      split: list.splits sum.splits)

lemma kept_executeRedirectedCommand: "kept st (executeRedirectedCommand w st l)"
proof -
  have r: "kept st st1 \<Longrightarrow> kept st (runAndReport w st1 name rest inp out)" for st1 name rest inp out
    by (rule kept_trans[OF _ kept_runAndReport])
  show ?thesis
    by (simp add: executeRedirectedCommand_def Let_def kept_intros r
        split: list.splits option.splits prod.splits)
qed

lemma cacheStep_kept: "kept st st' \<Longrightarrow> cacheStep st st'"
  by (simp add: kept_def cacheStep_def)

lemma cacheStep_insert:
  assumes "commandCache st cmd = None" and "kept st st0" and "kept (cacheCommandPath st0 cmd path) st'"
  shows "cacheStep st st'"
proof -
  from assms(2,3) have "history st' = history st" "clock st' = clock st"
    "commandCache st' = (commandCache st)(cmd \<mapsto> path)"
    "timers st' = timers st @ [(clock st + cacheExpiration, cmd)]"
    by (simp_all add: kept_def cacheCommandPath_def)
  with assms(1) show ?thesis
    unfolding cacheStep_def by blast
qed

lemma cacheStep_typeBuiltin: "cacheStep st (typeBuiltin w st args)"
proof (cases args)
  case Nil
  then show ?thesis by (simp add: typeBuiltin_def cacheStep_kept kept_refl)
next
  case (Cons arg rest)
  show ?thesis
  proof (cases "\<not> isBuiltin arg \<and> getCachedCommandPath st arg = None \<and> scanPath w arg \<noteq> None")
    case True
    then obtain fullPath where f: "scanPath w arg = Some fullPath" by blast
    from True have miss: "commandCache st arg = None" by (simp add: getCachedCommandPath_def)
    have "cacheStep st (cacheCommandPath (emit st (arg @ '' is '' @ fullPath @ ''\<newline>'')) arg fullPath)"
      by (rule cacheStep_insert[OF miss kept_emit kept_refl])
    with True f Cons show ?thesis by (simp add: typeBuiltin_def)
  next
    case False
    with Cons show ?thesis
      by (auto simp: typeBuiltin_def cacheStep_kept kept_emit split: option.splits)
  qed
qed

lemma cacheStep_runExternal: "cacheStep st (runExternal w st cmd args)"
proof (cases "getCachedCommandPath st cmd = None \<and> scanPath w cmd \<noteq> None")
  case True
  then obtain fullPath where f: "scanPath w cmd = Some fullPath" by blast
  from True have miss: "commandCache st cmd = None" by (simp add: getCachedCommandPath_def)
  have "cacheStep st (executeExternalCommand w (cacheCommandPath st cmd fullPath) fullPath args)"
    by (rule cacheStep_insert[OF miss kept_refl kept_executeExternalCommand])
  with True f show ?thesis by (simp add: runExternal_def)
next
  case False
  then show ?thesis
    by (auto simp: runExternal_def cacheStep_kept kept_emit kept_executeExternalCommand
        split: option.splits)
qed

lemma cacheStep_if:
  "cacheStep st a \<Longrightarrow> cacheStep st b \<Longrightarrow> cacheStep st (if c then a else b)"
  by simp

lemma cacheStep_case_list:
  "cacheStep st a \<Longrightarrow> (\<And>x xs. cacheStep st (f x xs)) \<Longrightarrow>
   cacheStep st (case l of [] \<Rightarrow> a | x # xs \<Rightarrow> f x xs)"
  by (cases l) simp_all

lemma cacheStep_case_option:
  "cacheStep st a \<Longrightarrow> (\<And>x. cacheStep st (f x)) \<Longrightarrow>
   cacheStep st (case v of None \<Rightarrow> a | Some x \<Rightarrow> f x)"
  by (cases v) simp_all

lemma kept_exit: "kept st ((logEvent st e)\<lparr>status := s\<rparr>)"
  by (simp add: kept_def logEvent_def)

lemmas cacheStep_leaves =
  cacheStep_kept[OF kept_refl] cacheStep_kept[OF kept_emit] cacheStep_kept[OF kept_logEvent]
  cacheStep_kept[OF kept_status] cacheStep_kept[OF kept_exit] cacheStep_kept[OF kept_osCall]
  cacheStep_kept[OF kept_setAliases] cacheStep_kept[OF kept_removeAliases]
  cacheStep_kept[OF kept_exportVars] cacheStep_kept[OF kept_unsetVars]
  cacheStep_kept[OF kept_handleShellCustomization]
  cacheStep_kept[OF kept_printShellCustomization]
  cacheStep_kept[OF kept_executePipedCommands] cacheStep_kept[OF kept_startBackground]
  cacheStep_kept[OF kept_executeRedirectedCommand]
  cacheStep_typeBuiltin cacheStep_runExternal

lemma cacheStep_executeBuiltinCommand: "cacheStep st (executeBuiltinCommand w st cmd args)"
  unfolding executeBuiltinCommand_def
  by (intro cacheStep_if cacheStep_case_list cacheStep_case_option cacheStep_leaves)

lemma cacheStep_dispatch: "cacheStep st (dispatch w st l)"
  unfolding dispatch_def Let_def
  by (intro cacheStep_if cacheStep_case_list cacheStep_case_option cacheStep_leaves
      cacheStep_executeBuiltinCommand)

lemma handleCommand_cacheStep:
  assumes "handleCommand w st line = Returns st'"
  shows "cacheStep (st\<lparr>history := history st @ submitted [Submit w line]\<rparr>) st'"
proof (cases "strings_TrimSpace line = []")
  case True
  with assms have "st' = st" by (simp add: handleCommand_def)
  with True show ?thesis by (simp add: cacheStep_kept kept_refl)
next
  case False
  let ?st1 = "st\<lparr>history := history st @ [strings_TrimSpace line]\<rparr>"
  from assms False obtain l where
    l: "substituteCommand (sh w) (strings_TrimSpace line) = Some l"
    by (auto simp: handleCommand_def Let_def split: option.splits)
  have "cacheStep ?st1 st'"
  proof (cases "strings_HasSuffix (expandEnv w l) [CHR 0x5C]")
    case True
    with assms False l have "st' = ?st1\<lparr>input := input ?st1 @ ''\<newline>''\<rparr>"
      by (simp add: handleCommand_def Let_def)
    then show ?thesis by (simp add: cacheStep_def)
  next
    case no: False
    with assms False l have "st' = dispatch w ?st1 (expandEnv w l)"
      by (simp add: handleCommand_def Let_def)
    then show ?thesis by (simp add: cacheStep_dispatch)
  qed
  with False show ?thesis by simp
qed




subsection \<open>History\<close>



















subsection \<open>The path cache\<close>

lemma fold_fire: "fold fire ts m c = (if c \<in> snd ` set ts then None else m c)"
  by (induction ts arbitrary: m) (auto simp: fire_def)

lemma commandCache_elapse:
  "commandCache (elapse d st) c =
     (if c \<in> snd ` set (filter (due (clock st + d)) (timers st)) then None
      else commandCache st c)"
  by (simp add: elapse_def Let_def fold_fire)

lemma timers_elapse:
  "timers (elapse d st) = filter (\<lambda>timer. \<not> due (clock st + d) timer) (timers st)"
  by (simp add: elapse_def Let_def)

lemma clock_elapse: "clock (elapse d st) = clock st + d"
  by (simp add: elapse_def Let_def)

lemma timersOk_cacheStep:
  assumes "timersOk st" and "cacheStep st st'"
  shows "timersOk st'"
proof -
  from assms(2) consider
    (same) "commandCache st' = commandCache st" "timers st' = timers st"
    | (insert) cmd path where "commandCache st cmd = None"
        "commandCache st' = (commandCache st)(cmd \<mapsto> path)"
        "timers st' = timers st @ [(clock st + cacheExpiration, cmd)]"
    unfolding cacheStep_def by blast
  then show ?thesis
  proof cases
    case same
    with assms(1) show ?thesis by (simp add: timersOk_def)
  next
    case insert
    from assms(1) insert(1) have "cmd \<notin> snd ` set (timers st)"
      by (auto simp: timersOk_def list_all_iff)
    with assms(1) insert show ?thesis
      by (auto simp: timersOk_def list_all_iff)
  qed
qed

lemma timersOk_elapse:
  assumes "timersOk st"
  shows "timersOk (elapse d st)"
proof -
  let ?t = "clock st + d"
  from assms have dist: "distinct (map snd (timers st))"
    and cached: "\<And>timer. timer \<in> set (timers st) \<Longrightarrow> commandCache st (snd timer) \<noteq> None"
    by (auto simp: timersOk_def list_all_iff)
  have "distinct (map snd (filter (\<lambda>timer. \<not> due ?t timer) (timers st)))"
    using dist by (rule distinct_map_filter)
  moreover have "commandCache (elapse d st) (snd timer) \<noteq> None"
    if "timer \<in> set (timers st)" "\<not> due ?t timer" for timer
  proof -
    have "snd timer \<notin> snd ` set (filter (due ?t) (timers st))"
    proof
      assume "snd timer \<in> snd ` set (filter (due ?t) (timers st))"
      then obtain other where o: "other \<in> set (timers st)" "due ?t other" "snd other = snd timer"
        by auto
      with that dist have "other = timer"
        by (meson distinct_map inj_onD)
      with o that show False by simp
    qed
    with cached[OF that(1)] show ?thesis by (simp add: commandCache_elapse)
  qed
  ultimately show ?thesis
    by (auto simp: timersOk_def list_all_iff timers_elapse)
qed

lemma reachable_timersOk: "reachable st \<Longrightarrow> timersOk st"
proof (induction rule: reachable.induct)
  case (start st)
  then show ?case by (simp add: timersOk_def)
next
  case (submit st w line st')
  from handleCommand_cacheStep[OF submit.hyps(2)]
  have "cacheStep (st\<lparr>history := history st @ submitted [Submit w line]\<rparr>) st'" .
  moreover from submit.IH
  have "timersOk (st\<lparr>history := history st @ submitted [Submit w line]\<rparr>)"
    by (simp add: timersOk_def)
  ultimately show ?case by (rule timersOk_cacheStep[rotated])
next
  case (wait st d)
  then show ?case by (simp add: timersOk_elapse)
qed

lemma pinned_insert:
  assumes "timersOk st" and "commandCache st cmd = None"
    and "commandCache st1 = (commandCache st)(cmd \<mapsto> path)"
    and "timers st1 = timers st @ [(clock st + cacheExpiration, cmd)]"
  shows "pinned cmd path (clock st + cacheExpiration) st1"
proof -
  from assms(1,2) have "cmd \<notin> snd ` set (timers st)"
    by (auto simp: timersOk_def list_all_iff)
  with assms(3,4) show ?thesis
    by (auto simp: pinned_def list_all_iff)
qed

lemma pinned_cacheStep:
  assumes "pinned cmd path t st" and "cacheStep st st'"
  shows "pinned cmd path t st'"
proof -
  from assms(2) consider
    (same) "commandCache st' = commandCache st" "timers st' = timers st"
    | (insert) c q where "commandCache st c = None"
        "commandCache st' = (commandCache st)(c \<mapsto> q)"
        "timers st' = timers st @ [(clock st + cacheExpiration, c)]"
    unfolding cacheStep_def by blast
  then show ?thesis
  proof cases
    case same
    with assms(1) show ?thesis by (simp add: pinned_def)
  next
    case insert
    from assms(1) insert(1) have "c \<noteq> cmd" by (auto simp: pinned_def)
    with assms(1) insert show ?thesis by (auto simp: pinned_def list_all_iff)
  qed
qed

lemma pinned_history: "pinned cmd path t (st\<lparr>history := h\<rparr>) = pinned cmd path t st"
  by (simp add: pinned_def)

lemma pinned_elapse:
  assumes "pinned cmd path t st" and "clock st + d < t"
  shows "pinned cmd path t (elapse d st)"
proof -
  from assms(1) have c: "commandCache st cmd = Some path" and m: "(t, cmd) \<in> set (timers st)"
    and only: "\<And>timer. timer \<in> set (timers st) \<Longrightarrow> snd timer = cmd \<Longrightarrow> fst timer = t"
    by (auto simp: pinned_def list_all_iff)
  have "cmd \<notin> snd ` set (filter (due (clock st + d)) (timers st))"
  proof
    assume "cmd \<in> snd ` set (filter (due (clock st + d)) (timers st))"
    then obtain timer where "timer \<in> set (timers st)" "due (clock st + d) timer" "snd timer = cmd"
      by auto
    with only[of timer] assms(2) show False by (simp add: due_def)
  qed
  with c have "commandCache (elapse d st) cmd = Some path"
    by (simp add: commandCache_elapse)
  moreover from m assms(2) have "(t, cmd) \<in> set (timers (elapse d st))"
    by (simp add: timers_elapse due_def)
  moreover have "list_all (\<lambda>timer. snd timer = cmd \<longrightarrow> fst timer = t) (timers (elapse d st))"
    using only by (auto simp: list_all_iff timers_elapse)
  ultimately show ?thesis by (simp add: pinned_def)
qed

lemma pinned_expires:
  assumes "pinned cmd path t st" and "t \<le> clock st + d"
  shows "commandCache (elapse d st) cmd = None"
proof -
  from assms have "(t, cmd) \<in> set (filter (due (clock st + d)) (timers st))"
    by (simp add: pinned_def due_def)
  then have "cmd \<in> snd ` set (filter (due (clock st + d)) (timers st))"
    by force
  then show ?thesis by (simp add: commandCache_elapse)
qed

lemma handleCommand_clock: "handleCommand w st line = Returns st' \<Longrightarrow> clock st' = clock st"
  by (drule handleCommand_cacheStep) (simp add: cacheStep_def)

lemma runActions_clock: "runActions acts st = Some st' \<Longrightarrow> clock st \<le> clock st'"
proof (induction acts arbitrary: st)
  case Nil
  then show ?case by simp
next
  case (Cons a acts)
  show ?case
  proof (cases a)
    case (Submit w line)
    with Cons.prems obtain st1 where st1: "handleCommand w st line = Returns st1"
      by (auto split: outcome.splits)
    show ?thesis
    proof (cases "status st1 = Running")
      case True
      with Cons.prems Submit st1 have "runActions acts st1 = Some st'" by simp
      from Cons.IH[OF this] handleCommand_clock[OF st1] show ?thesis by simp
    next
      case False
      with Cons.prems Submit st1 handleCommand_clock[OF st1] show ?thesis by simp
    qed
  next
    case (Elapse d)
    with Cons.prems have "runActions acts (elapse d st) = Some st'" by simp
    from Cons.IH[OF this] show ?thesis by (simp add: clock_elapse)
  qed
qed

lemma pinned_runActions:
  "runActions acts st = Some st' \<Longrightarrow> pinned cmd path t st \<Longrightarrow> clock st' < t \<Longrightarrow>
   pinned cmd path t st'"
proof (induction acts arbitrary: st)
  case Nil
  then show ?case by simp
next
  case (Cons a acts)
  show ?case
  proof (cases a)
    case (Submit w line)
    with Cons.prems obtain st1 where st1: "handleCommand w st line = Returns st1"
      by (auto split: outcome.splits)
    from Cons.prems(2) have "pinned cmd path t (st\<lparr>history := history st @ submitted [Submit w line]\<rparr>)"
      by (simp only: pinned_history)
    from pinned_cacheStep[OF this handleCommand_cacheStep[OF st1]]
    have p1: "pinned cmd path t st1" .
    show ?thesis
    proof (cases "status st1 = Running")
      case True
      with Cons.prems Submit st1 have "runActions acts st1 = Some st'" by simp
      from Cons.IH[OF this p1 Cons.prems(3)] show ?thesis .
    next
      case False
      with Cons.prems Submit st1 p1 show ?thesis by simp
    qed
  next
    case (Elapse d)
    with Cons.prems have run: "runActions acts (elapse d st) = Some st'" by simp
    from runActions_clock[OF run] Cons.prems(3) have "clock st + d < t"
      by (simp add: clock_elapse)
    from Cons.IH[OF run pinned_elapse[OF Cons.prems(2) this] Cons.prems(3)] show ?thesis .
  qed
qed

lemma runExternal_miss:
  "getCachedCommandPath st cmd = None \<Longrightarrow>
   runExternal w st cmd args =
     (case scanPath w cmd of
        Some fullPath \<Rightarrow> executeExternalCommand w (cacheCommandPath st cmd fullPath) fullPath args
      | None \<Rightarrow> emit st (cmd @ '': command not found\<newline>''))"
  by (simp add: runExternal_def)

lemma runExternal_hit:
  "getCachedCommandPath st cmd = Some path \<Longrightarrow>
   runExternal w st cmd args = executeExternalCommand w st path args"
  by (simp add: runExternal_def)

lemma typeBuiltin_miss:
  "\<not> isBuiltin cmd \<Longrightarrow> getCachedCommandPath st cmd = None \<Longrightarrow> scanPath w cmd = Some path \<Longrightarrow>
   typeBuiltin w st (cmd # rest) =
     cacheCommandPath (emit st (cmd @ '' is '' @ path @ ''\<newline>'')) cmd path"
  by (simp add: typeBuiltin_def)

lemma scan_inserts:
  assumes "getCachedCommandPath st cmd = None" and "scanPath w cmd = Some path"
    and "st1 = runExternal w st cmd args \<or> \<not> isBuiltin cmd \<and> st1 = typeBuiltin w st (cmd # rest)"
  shows "commandCache st1 = (commandCache st)(cmd \<mapsto> path) \<and>
         timers st1 = timers st @ [(clock st + cacheExpiration, cmd)] \<and> clock st1 = clock st"
proof -
  from assms(3) show ?thesis
  proof
    assume "st1 = runExternal w st cmd args"
    with assms(1,2) have "st1 = executeExternalCommand w (cacheCommandPath st cmd path) path args"
      by (simp add: runExternal_miss)
    with kept_executeExternalCommand[of "cacheCommandPath st cmd path" w path args]
    show ?thesis by (simp add: kept_def cacheCommandPath_def)
  next
    assume "\<not> isBuiltin cmd \<and> st1 = typeBuiltin w st (cmd # rest)"
    with assms(1,2) have "st1 = cacheCommandPath (emit st (cmd @ '' is '' @ path @ ''\<newline>'')) cmd path"
      by (simp add: typeBuiltin_miss)
    then show ?thesis by (simp add: cacheCommandPath_def emit_def)
  qed
qed

text \<open>
  C4. Time is the clock of the model, and a timer fires when the clock reaches its
  deadline. In a state of a session where the name is not cached, let the scan of the
  search path find a path, in the last branch of \<^verbatim>\<open>handleCommand\<close> or in the builtin
  \<^verbatim>\<open>type\<close>. Then the path is cached. While less than \<open>cacheExpiration\<close> has passed
  since, whatever lines have been handled in between, a lookup gives this path and the
  command runs from it without a scan. At the first moment at or after the deadline the
  entry is gone, and the command is resolved by a scan of the search path again.
\<close>

theorem cached_path_lives_for_the_ttl:
  assumes "reachable st" and "getCachedCommandPath st cmd = None" and "scanPath w cmd = Some path"
    and "st1 = runExternal w st cmd args \<or> \<not> isBuiltin cmd \<and> st1 = typeBuiltin w st (cmd # rest)"
  shows "getCachedCommandPath st1 cmd = Some path \<and>
         (\<forall>acts st2.
            runActions acts st1 = Some st2 \<and> clock st2 < clock st + cacheExpiration \<longrightarrow>
              getCachedCommandPath st2 cmd = Some path \<and>
              (\<forall>w' args'. runExternal w' st2 cmd args' = executeExternalCommand w' st2 path args') \<and>
              (\<forall>d. clock st + cacheExpiration \<le> clock st2 + d \<longrightarrow>
                 getCachedCommandPath (elapse d st2) cmd = None \<and>
                 (\<forall>w' args'.
                    runExternal w' (elapse d st2) cmd args' =
                      (case scanPath w' cmd of
                         Some fullPath \<Rightarrow>
                           executeExternalCommand w'
                             (cacheCommandPath (elapse d st2) cmd fullPath) fullPath args'
                       | None \<Rightarrow> emit (elapse d st2) (cmd @ '': command not found\<newline>'')))))"
proof -
  let ?t = "clock st + cacheExpiration"
  from assms(2) have miss: "commandCache st cmd = None"
    by (simp add: getCachedCommandPath_def)
  from scan_inserts[OF assms(2,3,4)]
  have ins: "commandCache st1 = (commandCache st)(cmd \<mapsto> path)"
    "timers st1 = timers st @ [(clock st + cacheExpiration, cmd)]"
    by simp_all
  from pinned_insert[OF reachable_timersOk[OF assms(1)] miss ins]
  have p1: "pinned cmd path ?t st1" .
  have now: "getCachedCommandPath st1 cmd = Some path"
    using ins by (simp add: getCachedCommandPath_def)
  have later: "getCachedCommandPath st2 cmd = Some path \<and>
      (\<forall>w' args'. runExternal w' st2 cmd args' = executeExternalCommand w' st2 path args') \<and>
      (\<forall>d. ?t \<le> clock st2 + d \<longrightarrow>
         getCachedCommandPath (elapse d st2) cmd = None \<and>
         (\<forall>w' args'.
            runExternal w' (elapse d st2) cmd args' =
              (case scanPath w' cmd of
                 Some fullPath \<Rightarrow>
                   executeExternalCommand w'
                     (cacheCommandPath (elapse d st2) cmd fullPath) fullPath args'
               | None \<Rightarrow> emit (elapse d st2) (cmd @ '': command not found\<newline>''))))"
    if run: "runActions acts st1 = Some st2" and before: "clock st2 < ?t" for acts st2
  proof -
    from pinned_runActions[OF run p1 before] have p2: "pinned cmd path ?t st2" .
    then have hit: "getCachedCommandPath st2 cmd = Some path"
      by (simp add: pinned_def getCachedCommandPath_def)
    have gone: "getCachedCommandPath (elapse d st2) cmd = None" if "?t \<le> clock st2 + d" for d
      using pinned_expires[OF p2 that] by (simp add: getCachedCommandPath_def)
    from hit gone show ?thesis
      by (simp add: runExternal_hit runExternal_miss)
  qed
  from now later show ?thesis by blast
qed

lemma reachable_initShell: "reachable initShell"
  by (rule reachable.start) (simp_all add: initShell_def)

theorem cached_path_lives_for_the_ttl_witness:
  "getCachedCommandPath (runExternal exampleWorld initShell ''git'' [''status'']) ''git'' =
     Some ''/usr/bin/git'' \<and>
   getCachedCommandPath
     (elapse 299999999999 (runExternal exampleWorld initShell ''git'' [''status''])) ''git'' =
     Some ''/usr/bin/git'' \<and>
   getCachedCommandPath
     (elapse 300000000000 (runExternal exampleWorld initShell ''git'' [''status''])) ''git'' = None"
proof -
  let ?st1 = "runExternal exampleWorld initShell ''git'' [''status'']"
  have miss: "getCachedCommandPath initShell ''git'' = None"
    by (simp add: getCachedCommandPath_def initShell_def)
  have c0: "clock initShell = 0" by (simp add: initShell_def)
  note th = cached_path_lives_for_the_ttl[OF reachable_initShell miss scanPath_git,
      of ?st1 "[''status'']" rest, simplified]
  from th have 1: "getCachedCommandPath ?st1 ''git'' = Some ''/usr/bin/git''" by blast
  from scan_inserts[OF miss scanPath_git, of ?st1 "[''status'']" rest]
  have c1: "clock ?st1 = 0" by (simp add: c0)
  have r2: "runActions [Elapse 299999999999] ?st1 = Some (elapse 299999999999 ?st1)"
    "runActions [] ?st1 = Some ?st1"
    by simp_all
  from th[THEN conjunct2, rule_format, of "[Elapse 299999999999]" "elapse 299999999999 ?st1"] r2(1)
  have 2: "getCachedCommandPath (elapse 299999999999 ?st1) ''git'' = Some ''/usr/bin/git''"
    by (simp add: clock_elapse c1 c0 cacheExpiration_def)
  from th[THEN conjunct2, rule_format, of "[]" ?st1] r2(2)
  have "\<forall>d. clock initShell + cacheExpiration \<le> clock ?st1 + d \<longrightarrow>
           getCachedCommandPath (elapse d ?st1) ''git'' = None"
    by (simp add: c1 c0 cacheExpiration_def)
  then have 3: "getCachedCommandPath (elapse 300000000000 ?st1) ''git'' = None"
    by (simp add: c1 c0 cacheExpiration_def)
  from 1 2 3 show ?thesis by simp
qed

end
